theory Spec2Isabelle
  imports Complex_Main "HOL-Library.Word"
begin

unbundle bit_operations_syntax

section \<open>Edge-rotation beautify (bmesh beautify fill)\<close>

text \<open>
  Shallow embedding of the beautify-fill operator: the per-slot set of edge-rotation
  states, the rotation cost, the heap update after a rotation and the main loop of
  \<open>BM_mesh_beautify_fill\<close>.

  Conventions of the embedding.
  \<^item> Pointers to mesh elements are handles (natural numbers); the fields the code reads
    through them (\<open>e->v1\<close>, \<open>e->l\<close>, \<open>l->prev\<close>, \<open>l->radial_next\<close>, \<open>v->co\<close>,
    \<open>head.index\<close>, \<open>head.hflag\<close>, ...) are the fields of the record \<open>bmesh\<close>.
  \<^item> \<open>int\<close> and \<open>short\<close> values are 32- and 16-bit words, \<open>char\<close> flags 8-bit words.
  \<^item> \<open>float\<close> values are modelled as reals; rounding and NaN are not modelled.
  \<^item> Library code the file calls but does not contain (the mesh mutation
    \<open>BM_edge_rotate\<close>, the topology queries, the vector maths, the constants of the
    headers) is a parameter: the record \<open>bm_api\<close>.
  \<^item> \<open>BLI_assert\<close> is modelled as in a build with assertions enabled: a failed
    assertion ends the call with the error \<open>AssertionFailed\<close>. An array access outside
    \<open>[0, edge_array_len)\<close> ends it with \<open>OutOfBounds\<close>.
\<close>

subsection \<open>Mesh store\<close>

type_synonym BMVert = nat
type_synonym BMEdge = nat
type_synonym BMLoop = nat
type_synonym BMFace = nat
type_synonym co = "real \<times> real \<times> real"

record bmesh =
  e_v1 :: "BMEdge \<Rightarrow> BMVert"
  e_v2 :: "BMEdge \<Rightarrow> BMVert"
  e_l :: "BMEdge \<Rightarrow> BMLoop"
  l_v :: "BMLoop \<Rightarrow> BMVert"
  l_e :: "BMLoop \<Rightarrow> BMEdge"
  l_f :: "BMLoop \<Rightarrow> BMFace"
  l_next :: "BMLoop \<Rightarrow> BMLoop"
  l_prev :: "BMLoop \<Rightarrow> BMLoop"
  l_radial_next :: "BMLoop \<Rightarrow> BMLoop"
  f_len :: "BMFace \<Rightarrow> 32 word"
  v_co :: "BMVert \<Rightarrow> co"
  v_index :: "BMVert \<Rightarrow> 32 word"
  v_hflag :: "BMVert \<Rightarrow> 8 word"
  e_index :: "BMEdge \<Rightarrow> 32 word"
  e_oflag :: "BMEdge \<Rightarrow> 16 word"
  f_oflag :: "BMFace \<Rightarrow> 16 word"
  elem_index_dirty :: "8 word"
  edge_pool :: "BMEdge list"

text \<open>
  \<open>edge_pool\<close> lists the live edges of the mesh; the beautify code never reads it, only
  the mesh library does.
\<close>

datatype error = AssertionFailed | OutOfBounds

text \<open>
  The library the code is linked against. \<open>BM_edge_rotate\<close> stands for the call
  \<open>BM_edge_rotate(bm, e, false, BM_EDGEROT_CHECK_EXISTS)\<close>: it returns the mesh after
  the call and the new edge, or no edge when the rotation is refused.
\<close>

record bm_api =
  BM_edge_rotate :: "bmesh \<Rightarrow> BMEdge \<Rightarrow> bmesh \<times> BMEdge option"
  BM_edge_is_manifold :: "bmesh \<Rightarrow> BMEdge \<Rightarrow> bool"
  BM_vert_in_edge :: "bmesh \<Rightarrow> BMEdge \<Rightarrow> BMVert \<Rightarrow> bool"
  BM_edge_face_count_is_equal :: "bmesh \<Rightarrow> BMEdge \<Rightarrow> nat \<Rightarrow> bool"
  normal_tri_v3 :: "co \<Rightarrow> co \<Rightarrow> co \<Rightarrow> co \<times> real"
  angle_normalized_v3v3 :: "co \<Rightarrow> co \<Rightarrow> real"
  BLI_polyfill_edge_calc_rotate_beauty__area :: "co \<Rightarrow> co \<Rightarrow> co \<Rightarrow> co \<Rightarrow> bool \<Rightarrow> real"
  VERT_RESTRICT_TAG :: "16 word"
  EDGE_RESTRICT_DEGENERATE :: "16 word"
  BM_ELEM_TAG :: "8 word"
  BM_EDGE :: "8 word"

definition FLT_MAX :: real where
  "FLT_MAX = 340282346638528859811704183484516925440"

definition BM_elem_index_get_v :: "bmesh \<Rightarrow> BMVert \<Rightarrow> 32 word" where
  "BM_elem_index_get_v bm v = v_index bm v"

definition BM_elem_index_get_e :: "bmesh \<Rightarrow> BMEdge \<Rightarrow> 32 word" where
  "BM_elem_index_get_e bm e = e_index bm e"

definition BM_elem_index_set_e :: "bmesh \<Rightarrow> BMEdge \<Rightarrow> 32 word \<Rightarrow> bmesh" where
  "BM_elem_index_set_e bm e i = bm\<lparr>e_index := (e_index bm)(e := i)\<rparr>"

definition BM_elem_flag_test_v :: "bmesh \<Rightarrow> BMVert \<Rightarrow> 8 word \<Rightarrow> 8 word" where
  "BM_elem_flag_test_v bm v hflag = v_hflag bm v AND hflag"

definition BMO_edge_flag_enable :: "bmesh \<Rightarrow> BMEdge \<Rightarrow> 16 word \<Rightarrow> bmesh" where
  "BMO_edge_flag_enable bm e oflag = bm\<lparr>e_oflag := (e_oflag bm)(e := e_oflag bm e OR oflag)\<rparr>"

definition BMO_face_flag_enable :: "bmesh \<Rightarrow> BMFace \<Rightarrow> 16 word \<Rightarrow> bmesh" where
  "BMO_face_flag_enable bm f oflag = bm\<lparr>f_oflag := (f_oflag bm)(f := f_oflag bm f OR oflag)\<rparr>"

subsection \<open>Edge rotation states\<close>

record EdRotState =
  v_pair :: "32 word \<times> 32 word"
  f_pair :: "32 word \<times> 32 word"

text \<open>\<open>EDGE_ORD\<close>: swap so that the first component is the smaller (signed comparison).\<close>

definition EDGE_ORD :: "32 word \<times> 32 word \<Rightarrow> 32 word \<times> 32 word" where
  "EDGE_ORD p = (case p of (v0, v1) \<Rightarrow> if sint v0 > sint v1 then (v1, v0) else (v0, v1))"

definition erot_state_ex ::
  "bm_api \<Rightarrow> bmesh \<Rightarrow> BMEdge \<Rightarrow> error + ((32 word \<times> 32 word) \<times> (32 word \<times> 32 word))" where
  "erot_state_ex A bm e =
     (if \<not> BM_edge_is_manifold A bm e then Inl AssertionFailed
      else if BM_vert_in_edge A bm e (l_v bm (l_prev bm (e_l bm e))) then Inl AssertionFailed
      else if BM_vert_in_edge A bm e (l_v bm (l_prev bm (l_radial_next bm (e_l bm e))))
        then Inl AssertionFailed
      else
        let v_idx = EDGE_ORD (BM_elem_index_get_v bm (e_v1 bm e),
                                BM_elem_index_get_v bm (e_v2 bm e));
            f_idx = EDGE_ORD (BM_elem_index_get_v bm (l_v bm (l_prev bm (e_l bm e))),
                                BM_elem_index_get_v bm
                                  (l_v bm (l_prev bm (l_radial_next bm (e_l bm e)))))
        in Inr (v_idx, f_idx))"

definition erot_state_current :: "bm_api \<Rightarrow> bmesh \<Rightarrow> BMEdge \<Rightarrow> error + EdRotState" where
  "erot_state_current A bm e =
     (case erot_state_ex A bm e of
        Inl err \<Rightarrow> Inl err
      | Inr (v_idx, f_idx) \<Rightarrow> Inr \<lparr>v_pair = v_idx, f_pair = f_idx\<rparr>)"

definition erot_state_alternate :: "bm_api \<Rightarrow> bmesh \<Rightarrow> BMEdge \<Rightarrow> error + EdRotState" where
  "erot_state_alternate A bm e =
     (case erot_state_ex A bm e of
        Inl err \<Rightarrow> Inl err
      | Inr (v_idx, f_idx) \<Rightarrow> Inr \<lparr>v_pair = f_idx, f_pair = v_idx\<rparr>)"

subsection \<open>Improvement of rotating an edge\<close>

definition bm_edge_calc_rotate_beauty__angle :: "bm_api \<Rightarrow> co \<Rightarrow> co \<Rightarrow> co \<Rightarrow> co \<Rightarrow> real" where
  "bm_edge_calc_rotate_beauty__angle A v1 v2 v3 v4 =
     (let no_a = fst (normal_tri_v3 A v2 v3 v4);
          no_b = fst (normal_tri_v3 A v2 v4 v1);
          angle_24 = angle_normalized_v3v3 A no_a no_b
      in if snd (normal_tri_v3 A v1 v2 v3) = 0 \<or> snd (normal_tri_v3 A v1 v3 v4) = 0
         then FLT_MAX
         else
           let no_a = fst (normal_tri_v3 A v1 v2 v3);
               no_b = fst (normal_tri_v3 A v1 v3 v4);
               angle_13 = angle_normalized_v3v3 A no_a no_b
           in angle_13 - angle_24)"

definition BM_verts_calc_rotate_beauty ::
  "bm_api \<Rightarrow> bmesh \<Rightarrow> BMVert \<Rightarrow> BMVert \<Rightarrow> BMVert \<Rightarrow> BMVert \<Rightarrow> 16 word \<Rightarrow> 16 word \<Rightarrow> real" where
  "BM_verts_calc_rotate_beauty A bm v1 v2 v3 v4 flag method =
     (if flag AND VERT_RESTRICT_TAG A \<noteq> 0 \<and>
         BM_elem_flag_test_v bm v1 (BM_ELEM_TAG A) = BM_elem_flag_test_v bm v3 (BM_ELEM_TAG A)
      then FLT_MAX
      else if v1 = v3 then FLT_MAX
      else if method = 0 then
        BLI_polyfill_edge_calc_rotate_beauty__area A
          (v_co bm v1) (v_co bm v2) (v_co bm v3) (v_co bm v4)
          (flag AND EDGE_RESTRICT_DEGENERATE A \<noteq> 0)
      else bm_edge_calc_rotate_beauty__angle A (v_co bm v1) (v_co bm v2) (v_co bm v3) (v_co bm v4))"

definition bm_edge_calc_rotate_beauty :: "bm_api \<Rightarrow> bmesh \<Rightarrow> BMEdge \<Rightarrow> 16 word \<Rightarrow> 16 word \<Rightarrow> real" where
  "bm_edge_calc_rotate_beauty A bm e flag method =
     (let v1 = l_v bm (l_prev bm (e_l bm e));
          v2 = l_v bm (e_l bm e);
          v3 = l_v bm (l_prev bm (l_radial_next bm (e_l bm e)));
          v4 = l_v bm (l_next bm (e_l bm e))
      in BM_verts_calc_rotate_beauty A bm v1 v2 v3 v4 flag method)"

subsection \<open>Heap of edges\<close>

text \<open>
  Modelled from the spec: \<open>BLI_heap\<close> (\<open>BLI_heap.h\<close>) is not part of the sources. The
  spec describes a min-heap over (score, edge) with insert (returning an opaque handle),
  remove-by-handle and pop-minimum. Here a heap is the list of its nodes
  (handle, value, pointer) and a counter for fresh handles; among nodes of equal value
  \<open>BLI_heap_pop_min\<close> takes the one inserted first.
\<close>

type_synonym HeapNode = nat

record Heap =
  h_nodes :: "(HeapNode \<times> real \<times> BMEdge) list"
  h_next :: HeapNode

definition BLI_heap_new_ex :: "nat \<Rightarrow> Heap" where
  "BLI_heap_new_ex reserve_num = \<lparr>h_nodes = [], h_next = 0\<rparr>"

definition BLI_heap_insert :: "Heap \<Rightarrow> real \<Rightarrow> BMEdge \<Rightarrow> Heap \<times> HeapNode" where
  "BLI_heap_insert h val p =
     (h\<lparr>h_nodes := h_nodes h @ [(h_next h, val, p)], h_next := Suc (h_next h)\<rparr>, h_next h)"

definition BLI_heap_remove :: "Heap \<Rightarrow> HeapNode \<Rightarrow> Heap" where
  "BLI_heap_remove h n = h\<lparr>h_nodes := filter (\<lambda>x. fst x \<noteq> n) (h_nodes h)\<rparr>"

definition BLI_heap_is_empty :: "Heap \<Rightarrow> bool" where
  "BLI_heap_is_empty h = (h_nodes h = [])"

fun heap_top :: "(HeapNode \<times> real \<times> BMEdge) list \<Rightarrow> (HeapNode \<times> real \<times> BMEdge) option" where
  "heap_top [] = None"
| "heap_top (n # ns) =
     (case heap_top ns of
        None \<Rightarrow> Some n
      | Some m \<Rightarrow> if fst (snd n) \<le> fst (snd m) then Some n else Some m)"

definition BLI_heap_pop_min :: "Heap \<Rightarrow> (Heap \<times> BMEdge) option" where
  "BLI_heap_pop_min h =
     (case heap_top (h_nodes h) of
        None \<Rightarrow> None
      | Some n \<Rightarrow> Some (BLI_heap_remove h (fst n), snd (snd n)))"

subsection \<open>State of one invocation\<close>

text \<open>
  The local variables of \<open>BM_mesh_beautify_fill\<close> together with the mesh and the
  caller's array. \<open>edge_state_arr\<close> holds per slot either no set (\<open>nullptr\<close>) or the set
  of recorded states. \<open>flips\<close> is a ghost log, not a variable of the source: one entry
  (slot, recorded state) for each call of \<open>BM_edge_rotate\<close> that returned an edge, in
  the order of the calls.
\<close>

record beautify_state =
  bm :: bmesh
  edge_array :: "BMEdge list"
  eheap :: Heap
  eheap_table :: "HeapNode option list"
  edge_state_arr :: "EdRotState set option list"
  flips :: "(nat \<times> EdRotState) list"

subsection \<open>Update the edge cost of rotation in the heap\<close>

definition edge_in_array :: "bmesh \<Rightarrow> BMEdge \<Rightarrow> BMEdge list \<Rightarrow> bool" where
  "edge_in_array m e arr =
     (let index = sint (BM_elem_index_get_e m e)
      in index \<ge> 0 \<and> index < int (length arr) \<and> e = arr ! nat index)"

text \<open>
  Recalculate the edge of slot \<open>i\<close> and insert it when the cost is negative: the last
  block of \<open>bm_edge_update_beauty_cost_single\<close>, and the same statements in the loop of
  \<open>BM_mesh_beautify_fill\<close> that builds the heap.
\<close>

definition recalculate_edge ::
  "bm_api \<Rightarrow> BMEdge \<Rightarrow> nat \<Rightarrow> 16 word \<Rightarrow> 16 word \<Rightarrow> beautify_state \<Rightarrow> beautify_state" where
  "recalculate_edge A e i flag method s =
     (let cost = bm_edge_calc_rotate_beauty A (bm s) e flag method
      in if cost < 0 then
           (case BLI_heap_insert (eheap s) cost e of
              (h, n) \<Rightarrow> s\<lparr>eheap := h, eheap_table := (eheap_table s)[i := Some n]\<rparr>)
         else s\<lparr>eheap_table := (eheap_table s)[i := None]\<rparr>)"

definition bm_edge_update_beauty_cost_single ::
  "bm_api \<Rightarrow> BMEdge \<Rightarrow> 16 word \<Rightarrow> 16 word \<Rightarrow> beautify_state \<Rightarrow> error + beautify_state" where
  "bm_edge_update_beauty_cost_single A e flag method s =
     (if edge_in_array (bm s) e (edge_array s) then
        let i = nat (sint (BM_elem_index_get_e (bm s) e));
            e_state_set = edge_state_arr s ! i;
            s1 = (case eheap_table s ! i of
                    Some n \<Rightarrow> s\<lparr>eheap := BLI_heap_remove (eheap s) n,
                                 eheap_table := (eheap_table s)[i := None]\<rparr>
                  | None \<Rightarrow> s)
        in if \<not> BM_edge_is_manifold A (bm s) e then Inl AssertionFailed
           else
             (case e_state_set of
                Some S \<Rightarrow>
                  (case erot_state_alternate A (bm s) e of
                     Inl err \<Rightarrow> Inl err
                   | Inr e_state_alt \<Rightarrow>
                       if e_state_alt \<in> S then Inr s1
                       else Inr (recalculate_edge A e i flag method s1))
              | None \<Rightarrow> Inr (recalculate_edge A e i flag method s1))
      else Inr s)"

text \<open>The loop over the four edges of \<open>e_arr\<close>.\<close>

fun bm_edge_update_beauty_cost_loop ::
  "bm_api \<Rightarrow> BMEdge list \<Rightarrow> 16 word \<Rightarrow> 16 word \<Rightarrow> beautify_state \<Rightarrow> error + beautify_state" where
  "bm_edge_update_beauty_cost_loop A [] flag method s = Inr s"
| "bm_edge_update_beauty_cost_loop A (e # es) flag method s =
     (case bm_edge_update_beauty_cost_single A e flag method s of
        Inl err \<Rightarrow> Inl err
      | Inr s' \<Rightarrow> bm_edge_update_beauty_cost_loop A es flag method s')"

definition bm_edge_update_beauty_cost ::
  "bm_api \<Rightarrow> BMEdge \<Rightarrow> 16 word \<Rightarrow> 16 word \<Rightarrow> beautify_state \<Rightarrow> error + beautify_state" where
  "bm_edge_update_beauty_cost A e flag method s =
     (let m = bm s;
          e_arr = [l_e m (l_next m (e_l m e)),
                   l_e m (l_prev m (e_l m e)),
                   l_e m (l_next m (l_radial_next m (e_l m e))),
                   l_e m (l_prev m (l_radial_next m (e_l m e)))]
      in if \<not> (f_len m (l_f m (e_l m e)) = 3 \<and> f_len m (l_f m (l_radial_next m (e_l m e))) = 3)
         then Inl AssertionFailed
         else if \<not> BM_edge_face_count_is_equal A m e 2 then Inl AssertionFailed
         else bm_edge_update_beauty_cost_loop A e_arr flag method s)"

subsection \<open>Beautify fill\<close>

text \<open>
  One pass of the loop that builds the heap, for slot \<open>i\<close>. \<open>eheap_table\<close> is
  allocated without initialisation; the loop writes every entry before any is read, so
  the initial content (\<open>None\<close> in \<open>build_heap\<close>) is never observed.
\<close>

definition build_heap_step ::
  "bm_api \<Rightarrow> 16 word \<Rightarrow> 16 word \<Rightarrow> nat \<Rightarrow> beautify_state \<Rightarrow> beautify_state" where
  "build_heap_step A flag method i s =
     (let e = edge_array s ! i;
          s1 = recalculate_edge A e i flag method s
      in s1\<lparr>bm := BM_elem_index_set_e (bm s1) e (of_nat i)\<rparr>)"

definition build_heap ::
  "bm_api \<Rightarrow> 16 word \<Rightarrow> 16 word \<Rightarrow> bmesh \<Rightarrow> BMEdge list \<Rightarrow> beautify_state" where
  "build_heap A flag method m arr =
     (let edge_array_len = length arr;
          s0 = \<lparr>bm = m, edge_array = arr,
                eheap = BLI_heap_new_ex edge_array_len,
                eheap_table = replicate edge_array_len None,
                edge_state_arr = replicate edge_array_len None,
                flips = []\<rparr>;
          s1 = fold (build_heap_step A flag method) [0..<edge_array_len] s0
      in s1\<lparr>bm := (bm s1)\<lparr>elem_index_dirty := elem_index_dirty (bm s1) OR BM_EDGE A\<rparr>\<rparr>)"

text \<open>
  The body of the \<open>while\<close> loop: pop the minimum, rotate, and on success record the new
  state, maintain the index array, update the neighbours and set the flags.
\<close>

definition beautify_step ::
  "bm_api \<Rightarrow> 16 word \<Rightarrow> 16 word \<Rightarrow> 16 word \<Rightarrow> 16 word \<Rightarrow> beautify_state \<Rightarrow> error + beautify_state" where
  "beautify_step A flag method oflag_edge oflag_face s =
     (case BLI_heap_pop_min (eheap s) of
        None \<Rightarrow> Inl AssertionFailed
      | Some (h, e) \<Rightarrow>
          let iw = BM_elem_index_get_e (bm s) e
          in if sint iw < 0 \<or> sint iw \<ge> int (length (edge_array s)) then Inl OutOfBounds
             else
               let i = nat (sint iw);
                   s1 = s\<lparr>eheap := h, eheap_table := (eheap_table s)[i := None]\<rparr>
               in if \<not> BM_edge_face_count_is_equal A (bm s) e 2 then Inl AssertionFailed
                  else
                    (case BM_edge_rotate A (bm s) e of
                       (m, None) \<Rightarrow> Inr (s1\<lparr>bm := m\<rparr>)
                     | (m, Some e') \<Rightarrow>
                         if \<not> BM_edge_face_count_is_equal A m e' 2 then Inl AssertionFailed
                         else
                           (case erot_state_current A m e' of
                              Inl err \<Rightarrow> Inl err
                            | Inr e_state \<Rightarrow>
                                let e_state_set =
                                      (case edge_state_arr s ! i of None \<Rightarrow> {} | Some S \<Rightarrow> S)
                                in if e_state \<in> e_state_set then Inl AssertionFailed
                                   else
                                     let s2 = s1\<lparr>bm := BM_elem_index_set_e m e' iw,
                                                 edge_array := (edge_array s)[i := e'],
                                                 edge_state_arr := (edge_state_arr s)
                                                   [i := Some (insert e_state e_state_set)],
                                                 flips := flips s @ [(i, e_state)]\<rparr>
                                     in (case bm_edge_update_beauty_cost A e' flag method s2 of
                                           Inl err \<Rightarrow> Inl err
                                         | Inr s3 \<Rightarrow>
                                             let m3 = (if oflag_edge \<noteq> 0
                                                       then BMO_edge_flag_enable (bm s3) e' oflag_edge
                                                       else bm s3);
                                                 m4 = (if oflag_face \<noteq> 0
                                                       then BMO_face_flag_enable
                                                              (BMO_face_flag_enable m3
                                                                 (l_f m3 (e_l m3 e')) oflag_face)
                                                              (l_f m3 (l_radial_next m3 (e_l m3 e')))
                                                              oflag_face
                                                       else m3)
                                             in Inr (s3\<lparr>bm := m4\<rparr>)))))"

partial_function (option) beautify_loop ::
  "bm_api \<Rightarrow> 16 word \<Rightarrow> 16 word \<Rightarrow> 16 word \<Rightarrow> 16 word \<Rightarrow> beautify_state
     \<Rightarrow> (error + beautify_state) option" where
  "beautify_loop A flag method oflag_edge oflag_face s =
     (if BLI_heap_is_empty (eheap s) then Some (Inr s)
      else
        (case beautify_step A flag method oflag_edge oflag_face s of
           Inl err \<Rightarrow> Some (Inl err)
         | Inr s' \<Rightarrow> beautify_loop A flag method oflag_edge oflag_face s'))"

declare beautify_loop.simps [code]

text \<open>
  The whole call. The heap, the table and the state sets are freed after the loop; the
  caller sees the mesh and the array of the returned state.
\<close>

definition BM_mesh_beautify_fill ::
  "bm_api \<Rightarrow> bmesh \<Rightarrow> BMEdge list \<Rightarrow> 16 word \<Rightarrow> 16 word \<Rightarrow> 16 word \<Rightarrow> 16 word
     \<Rightarrow> (error + beautify_state) option" where
  "BM_mesh_beautify_fill A m arr flag method oflag_edge oflag_face =
     beautify_loop A flag method oflag_edge oflag_face (build_heap A flag method m arr)"

subsection \<open>States of the loop\<close>

text \<open>
  The states at the head of the \<open>while\<close> loop of one call: the state after building
  the heap, and every state reached from it by passes of the loop body.
\<close>

inductive loop_state ::
  "bm_api \<Rightarrow> bmesh \<Rightarrow> BMEdge list \<Rightarrow> 16 word \<Rightarrow> 16 word \<Rightarrow> 16 word \<Rightarrow> 16 word
     \<Rightarrow> beautify_state \<Rightarrow> bool"
  for A m arr flag mthd oflag_e oflag_f where
  loop_init: "loop_state A m arr flag mthd oflag_e oflag_f (build_heap A flag mthd m arr)"
| loop_pass: "loop_state A m arr flag mthd oflag_e oflag_f s \<Longrightarrow>
     \<not> BLI_heap_is_empty (eheap s) \<Longrightarrow>
     beautify_step A flag mthd oflag_e oflag_f s = Inr s' \<Longrightarrow>
     loop_state A m arr flag mthd oflag_e oflag_f s'"

abbreviation slot_set :: "EdRotState set option \<Rightarrow> EdRotState set" where
  "slot_set x \<equiv> (case x of None \<Rightarrow> {} | Some S \<Rightarrow> S)"

text \<open>The state after a rotation has been recorded, before the neighbours are updated.\<close>

definition flip_state ::
  "beautify_state \<Rightarrow> Heap \<Rightarrow> 32 word \<Rightarrow> bmesh \<Rightarrow> BMEdge \<Rightarrow> EdRotState \<Rightarrow> beautify_state" where
  "flip_state s h iw m e' e_state =
     s\<lparr>eheap := h, eheap_table := (eheap_table s)[nat (sint iw) := None],
       bm := BM_elem_index_set_e m e' iw,
       edge_array := (edge_array s)[nat (sint iw) := e'],
       edge_state_arr := (edge_state_arr s)
         [nat (sint iw) := Some (insert e_state (slot_set (edge_state_arr s ! nat (sint iw))))],
       flips := flips s @ [(nat (sint iw), e_state)]\<rparr>"

text \<open>
  The variant of the loop: the number of states not yet recorded, summed over the slots,
  and the number of heap nodes.
\<close>

definition slot_room :: "EdRotState set option \<Rightarrow> nat" where
  "slot_room x = card (- slot_set x)"

definition rooms :: "beautify_state \<Rightarrow> nat" where
  "rooms s = sum_list (map slot_room (edge_state_arr s))"

definition step_measure :: "beautify_state \<Rightarrow> nat \<times> nat" where
  "step_measure s = (rooms s, length (h_nodes (eheap s)))"

definition arrays_aligned :: "beautify_state \<Rightarrow> bool" where
  "arrays_aligned s \<longleftrightarrow>
     length (eheap_table s) = length (edge_array s) \<and>
     length (edge_state_arr s) = length (edge_array s)"

text \<open>The log of flips lists, without repetition, the states recorded in the slots.\<close>

definition flips_recorded :: "beautify_state \<Rightarrow> bool" where
  "flips_recorded s \<longleftrightarrow>
     distinct (flips s) \<and>
     list_all (\<lambda>p. fst p < length (edge_state_arr s) \<and>
                    snd p \<in> slot_set (edge_state_arr s ! fst p)) (flips s)"

definition heap_negative :: "Heap \<Rightarrow> bool" where
  "heap_negative h \<longleftrightarrow> list_all (\<lambda>x. fst (snd x) < 0) (h_nodes h)"

text \<open>Two meshes that differ at most in the indices of the edges and the dirty flag.\<close>

definition index_variant :: "bmesh \<Rightarrow> bmesh \<Rightarrow> bool" where
  "index_variant m' m \<longleftrightarrow>
     m' = m\<lparr>e_index := e_index m', elem_index_dirty := elem_index_dirty m'\<rparr>"

subsection \<open>A mesh library for triangle meshes\<close>

text \<open>
  An instance of \<open>bm_api\<close> on which the model runs, for meshes of consistently oriented
  triangles. An edge is manifold when its radial cycle has two loops. The rotation
  refuses an edge that is not manifold and, as \<open>BM_EDGEROT_CHECK_EXISTS\<close> asks, a rotation
  whose new edge would double an edge of the mesh; otherwise it makes a new edge between
  the two opposite vertices and relinks the six loops of the two triangles. The vector
  functions are stand-ins in exact arithmetic: the cross product with its squared
  length as the normal, the negated dot product as the angle, and the difference of the
  squared lengths of the two diagonals as the area cost.
\<close>

definition tri_edge_is_manifold :: "bmesh \<Rightarrow> BMEdge \<Rightarrow> bool" where
  "tri_edge_is_manifold m e =
     (let l = e_l m e
      in l_radial_next m l \<noteq> l \<and> l_radial_next m (l_radial_next m l) = l)"

definition tri_vert_in_edge :: "bmesh \<Rightarrow> BMEdge \<Rightarrow> BMVert \<Rightarrow> bool" where
  "tri_vert_in_edge m e v = (e_v1 m e = v \<or> e_v2 m e = v)"

definition tri_edge_face_count_is_equal :: "bmesh \<Rightarrow> BMEdge \<Rightarrow> nat \<Rightarrow> bool" where
  "tri_edge_face_count_is_equal m e n =
     (let l = e_l m e
      in if l_radial_next m l = l then n = 1
         else if l_radial_next m (l_radial_next m l) = l then n = 2
         else False)"

definition tri_edge_exists :: "bmesh \<Rightarrow> BMVert \<Rightarrow> BMVert \<Rightarrow> bool" where
  "tri_edge_exists m va vb =
     list_ex (\<lambda>x. (e_v1 m x = va \<and> e_v2 m x = vb) \<or> (e_v1 m x = vb \<and> e_v2 m x = va))
       (edge_pool m)"

definition tri_edge_rotate :: "bmesh \<Rightarrow> BMEdge \<Rightarrow> bmesh \<times> BMEdge option" where
  "tri_edge_rotate m e =
     (let la = e_l m e; lb = l_radial_next m la;
          a_n = l_next m la; a_p = l_prev m la;
          b_n = l_next m lb; b_p = l_prev m lb;
          va = l_v m a_p; vb = l_v m b_p
      in if \<not> tri_edge_is_manifold m e then (m, None)
         else if tri_edge_exists m va vb then (m, None)
         else
           let e' = Suc (fold max (edge_pool m) 0)
           in (m\<lparr>e_v1 := (e_v1 m)(e' := va),
                 e_v2 := (e_v2 m)(e' := vb),
                 e_l := (e_l m)(e' := la),
                 l_v := (l_v m)(la := vb, lb := va),
                 l_e := (l_e m)(la := e', lb := e'),
                 l_f := (l_f m)(b_n := l_f m la, a_n := l_f m lb),
                 l_next := (l_next m)(a_p := b_n, b_n := la, la := a_p,
                                      b_p := a_n, a_n := lb, lb := b_p),
                 l_prev := (l_prev m)(b_n := a_p, la := b_n, a_p := la,
                                      a_n := b_p, lb := a_n, b_p := lb),
                 e_index := (e_index m)(e' := - 1),
                 edge_pool := e' # remove1 e (edge_pool m)\<rparr>,
               Some e'))"

definition sub_v3 :: "co \<Rightarrow> co \<Rightarrow> co" where
  "sub_v3 a b = (case a of (a0, a1, a2) \<Rightarrow> case b of (b0, b1, b2) \<Rightarrow> (a0 - b0, a1 - b1, a2 - b2))"

definition dot_v3 :: "co \<Rightarrow> co \<Rightarrow> real" where
  "dot_v3 a b = (case a of (a0, a1, a2) \<Rightarrow> case b of (b0, b1, b2) \<Rightarrow> a0 * b0 + a1 * b1 + a2 * b2)"

definition cross_v3 :: "co \<Rightarrow> co \<Rightarrow> co" where
  "cross_v3 a b =
     (case a of (a0, a1, a2) \<Rightarrow> case b of (b0, b1, b2) \<Rightarrow>
        (a1 * b2 - a2 * b1, a2 * b0 - a0 * b2, a0 * b1 - a1 * b0))"

definition tri_normal :: "co \<Rightarrow> co \<Rightarrow> co \<Rightarrow> co \<times> real" where
  "tri_normal v1 v2 v3 =
     (let n = cross_v3 (sub_v3 v1 v2) (sub_v3 v2 v3) in (n, dot_v3 n n))"

definition tri_angle :: "co \<Rightarrow> co \<Rightarrow> real" where
  "tri_angle a b = - dot_v3 a b"

definition diagonal_cost :: "co \<Rightarrow> co \<Rightarrow> co \<Rightarrow> co \<Rightarrow> bool \<Rightarrow> real" where
  "diagonal_cost v1 v2 v3 v4 lock_degenerate =
     dot_v3 (sub_v3 v1 v3) (sub_v3 v1 v3) - dot_v3 (sub_v3 v2 v4) (sub_v3 v2 v4)"

definition tri_api :: bm_api where
  "tri_api = \<lparr>BM_edge_rotate = tri_edge_rotate,
              BM_edge_is_manifold = tri_edge_is_manifold,
              BM_vert_in_edge = tri_vert_in_edge,
              BM_edge_face_count_is_equal = tri_edge_face_count_is_equal,
              normal_tri_v3 = tri_normal,
              angle_normalized_v3v3 = tri_angle,
              BLI_polyfill_edge_calc_rotate_beauty__area = diagonal_cost,
              VERT_RESTRICT_TAG = 1,
              EDGE_RESTRICT_DEGENERATE = 2,
              BM_ELEM_TAG = 16,
              BM_EDGE = 2\<rparr>"

text \<open>
  Two triangles (0,1,2) and (1,3,2) that share the edge 0 between the vertices 1 and 2.
  The loops 0,1,2 go round the first triangle, the loops 3,4,5 round the second.
\<close>

definition quad_mesh :: bmesh where
  "quad_mesh =
     \<lparr>e_v1 = (\<lambda>e. [1, 0, 2, 1, 3] ! e),
      e_v2 = (\<lambda>e. [2, 1, 0, 3, 2] ! e),
      e_l = (\<lambda>e. [1, 0, 2, 3, 4] ! e),
      l_v = (\<lambda>l. [0, 1, 2, 1, 3, 2] ! l),
      l_e = (\<lambda>l. [1, 0, 2, 3, 4, 0] ! l),
      l_f = (\<lambda>l. [0, 0, 0, 1, 1, 1] ! l),
      l_next = (\<lambda>l. [1, 2, 0, 4, 5, 3] ! l),
      l_prev = (\<lambda>l. [2, 0, 1, 5, 3, 4] ! l),
      l_radial_next = (\<lambda>l. [0, 5, 2, 3, 4, 1] ! l),
      f_len = (\<lambda>f. 3),
      v_co = (\<lambda>v. [(- 1, 0, 0), (0, - 3, 0), (0, 3, 0), (1, 0, 0)] ! v),
      v_index = (\<lambda>v. of_nat v),
      v_hflag = (\<lambda>v. 0),
      e_index = (\<lambda>e. - 1),
      e_oflag = (\<lambda>e. 0),
      f_oflag = (\<lambda>f. 0),
      elem_index_dirty = 0,
      edge_pool = [0, 1, 2, 3, 4]\<rparr>"

text \<open>
  Three triangles round the vertex 0, (0,1,2), (1,0,3) and (0,2,3), and a fourth triangle
  (3,2,4) on the edge between 2 and 3. Edge 0 joins the vertices 0 and 1, edge 1 the
  vertices 2 and 3. Rotating edge 0 would make a second edge between 2 and 3.
\<close>

definition fan_mesh :: bmesh where
  "fan_mesh =
     \<lparr>e_v1 = (\<lambda>e. [0, 2, 1, 2, 0, 3, 2, 4] ! e),
      e_v2 = (\<lambda>e. [1, 3, 2, 0, 3, 1, 4, 3] ! e),
      e_l = (\<lambda>e. [0, 7, 1, 2, 4, 5, 10, 11] ! e),
      l_v = (\<lambda>l. [0, 1, 2, 1, 0, 3, 0, 2, 3, 3, 2, 4] ! l),
      l_e = (\<lambda>l. [0, 2, 3, 0, 4, 5, 3, 1, 4, 1, 6, 7] ! l),
      l_f = (\<lambda>l. [0, 0, 0, 1, 1, 1, 2, 2, 2, 3, 3, 3] ! l),
      l_next = (\<lambda>l. [1, 2, 0, 4, 5, 3, 7, 8, 6, 10, 11, 9] ! l),
      l_prev = (\<lambda>l. [2, 0, 1, 5, 3, 4, 8, 6, 7, 11, 9, 10] ! l),
      l_radial_next = (\<lambda>l. [3, 1, 6, 0, 8, 5, 2, 9, 4, 7, 10, 11] ! l),
      f_len = (\<lambda>f. 3),
      v_co = (\<lambda>v. [(0, 0, 3), (0, 4, 0), (- 1, 0, 0), (1, 0, 0), (0, - 1, 2)] ! v),
      v_index = (\<lambda>v. of_nat v),
      v_hflag = (\<lambda>v. 0),
      e_index = (\<lambda>e. - 1),
      e_oflag = (\<lambda>e. 0),
      f_oflag = (\<lambda>f. 0),
      elem_index_dirty = 0,
      edge_pool = [0, 1, 2, 3, 4, 5, 6, 7]\<rparr>"

text \<open>
  States on the example meshes: after building the heap for the array \<open>[0]\<close> on the two
  triangles, the same state with the rotated state of edge 0 already in the set of slot 0,
  and after building the heap for the array \<open>[0, 1]\<close> on the fan.
\<close>

definition fan_start :: beautify_state where
  "fan_start = build_heap tri_api 0 0 fan_mesh [0, 1]"

definition quad_start :: beautify_state where
  "quad_start = build_heap tri_api 0 0 quad_mesh [0]"

definition quad_visited :: beautify_state where
  "quad_visited = quad_start\<lparr>edge_state_arr := [Some {\<lparr>v_pair = (0, 3), f_pair = (1, 2)\<rparr>}]\<rparr>"

text \<open>
  The two triangles with the vertices 0, 1 and 3 on one line, so that rotating edge 0
  would make a triangle without area, and the state after building the heap on it with
  the angle method.
\<close>

definition flat_mesh :: bmesh where
  "flat_mesh = quad_mesh\<lparr>v_co := (\<lambda>v. [(- 1, 0, 0), (0, 0, 0), (0, 3, 0), (1, 0, 0)] ! v)\<rparr>"

definition flat_start :: beautify_state where
  "flat_start = build_heap tri_api 0 1 flat_mesh [0]"

text \<open>The state that the call on the fan with the array \<open>[0, 1]\<close> returns.\<close>

definition fan_first :: beautify_state where
  "fan_first = (case BM_mesh_beautify_fill tri_api fan_mesh [0, 1] 0 0 0 0 of Some (Inr s) \<Rightarrow> s)"

text \<open>
  Every edge of the array has a cost that is not negative, or its rotation is refused and
  leaves the mesh as it is, on every mesh that differs from \<open>m\<close> at most in the edge
  indices.
\<close>

definition queued_edges_refused ::
  "bm_api \<Rightarrow> bmesh \<Rightarrow> BMEdge list \<Rightarrow> 16 word \<Rightarrow> 16 word \<Rightarrow> bool" where
  "queued_edges_refused A m arr flag method \<longleftrightarrow>
     (\<forall>e \<in> set arr. \<forall>m'. index_variant m' m \<longrightarrow>
        bm_edge_calc_rotate_beauty A m e flag method \<ge> 0 \<or>
        BM_edge_rotate A m' e = (m', None))"

text \<open>
  A loop state of a call in which nothing has been rotated: the log is empty, the array
  and the mesh are as given, and the heap holds edges of the array with a negative cost.
\<close>

definition no_flip_state :: "bm_api \<Rightarrow> bmesh \<Rightarrow> BMEdge list \<Rightarrow> 16 word \<Rightarrow> 16 word \<Rightarrow> beautify_state \<Rightarrow> bool" where
  "no_flip_state A m arr flag method s \<longleftrightarrow>
     flips s = [] \<and> edge_array s = arr \<and> index_variant (bm s) m \<and>
     list_all (\<lambda>x. snd (snd x) \<in> set arr \<and>
                    bm_edge_calc_rotate_beauty A m (snd (snd x)) flag method < 0)
       (h_nodes (eheap s))"

subsection \<open>What the loop expects of the mesh library\<close>

text \<open>
  \<open>BM_edge_rotate\<close> and the three topology queries are not part of this file of the
  source. The loop relies on them in the way stated here.

  Two meshes that differ at most in the marks that this file itself writes: the indices of
  the edges, the tool flags of edges and faces, and the dirty flag.
\<close>

definition marks_variant :: "bmesh \<Rightarrow> bmesh \<Rightarrow> bool" where
  "marks_variant m' m \<longleftrightarrow>
     m' = m\<lparr>e_index := e_index m', e_oflag := e_oflag m', f_oflag := f_oflag m',
            elem_index_dirty := elem_index_dirty m'\<rparr>"

text \<open>The topology queries of the library do not read those marks.\<close>

definition queries_ignore_marks :: "bm_api \<Rightarrow> bool" where
  "queries_ignore_marks A \<longleftrightarrow>
     (\<forall>m m' e v n. marks_variant m' m \<longrightarrow>
        BM_edge_is_manifold A m' e = BM_edge_is_manifold A m e \<and>
        BM_vert_in_edge A m' e v = BM_vert_in_edge A m e v \<and>
        BM_edge_face_count_is_equal A m' e n = BM_edge_face_count_is_equal A m e n)"

text \<open>
  An edge that the loop can handle: it has two faces (asserted at lines 287, 340 and 344),
  it is manifold and neither opposite vertex lies on it (asserted at lines 108--110 and
  240), and both faces are triangles (asserted at line 285).
\<close>

definition good_edge :: "bm_api \<Rightarrow> bmesh \<Rightarrow> BMEdge \<Rightarrow> bool" where
  "good_edge A m e \<longleftrightarrow>
     BM_edge_face_count_is_equal A m e 2 \<and>
     BM_edge_is_manifold A m e \<and>
     \<not> BM_vert_in_edge A m e (l_v m (l_prev m (e_l m e))) \<and>
     \<not> BM_vert_in_edge A m e (l_v m (l_prev m (l_radial_next m (e_l m e)))) \<and>
     f_len m (l_f m (e_l m e)) = 3 \<and>
     f_len m (l_f m (l_radial_next m (e_l m e))) = 3"

text \<open>The four edges around an edge that \<open>bm_edge_update_beauty_cost\<close> visits.\<close>

definition e_arr :: "bmesh \<Rightarrow> BMEdge \<Rightarrow> BMEdge list" where
  "e_arr m e =
     [l_e m (l_next m (e_l m e)),
      l_e m (l_prev m (e_l m e)),
      l_e m (l_next m (l_radial_next m (e_l m e))),
      l_e m (l_prev m (l_radial_next m (e_l m e)))]"

text \<open>
  The rotation of edge \<open>e\<close> in mesh \<open>m\<close> behaves as a rotation with respect to the
  array \<open>arr\<close>: when it is refused the mesh is returned as it was; otherwise the new edge
  is an edge the loop can handle, its state is the state of \<open>e\<close> with the two pairs
  exchanged (it joins the two vertices that were opposite, and the end points of \<open>e\<close>
  are now opposite), every other edge of the array is still there under its own handle,
  with its index and still an edge the loop can handle, and the state of an edge of the
  array that is not one of the four edges around the new edge is unchanged.
\<close>

definition rotation_conforms :: "bm_api \<Rightarrow> bmesh \<Rightarrow> BMEdge \<Rightarrow> BMEdge list \<Rightarrow> bool" where
  "rotation_conforms A m e arr \<longleftrightarrow>
     (case BM_edge_rotate A m e of
        (m', None) \<Rightarrow> m' = m
      | (m', Some e') \<Rightarrow>
          good_edge A m' e' \<and>
          (\<forall>vp fp. erot_state_ex A m e = Inr (vp, fp) \<longrightarrow> erot_state_ex A m' e' = Inr (fp, vp)) \<and>
          (\<forall>x \<in> set arr. x \<noteq> e \<longrightarrow>
             x \<noteq> e' \<and> e_index m' x = e_index m x \<and> good_edge A m' x \<and>
             (x \<notin> set (e_arr m' e') \<longrightarrow> erot_state_ex A m' x = erot_state_ex A m x)))"

text \<open>
  The array given to a call: no edge twice (a second node for an edge would be popped
  after the edge has been rotated away), fewer entries than an \<open>int\<close> index can count,
  and only edges the loop can handle.
\<close>

definition candidates_ok :: "bm_api \<Rightarrow> bmesh \<Rightarrow> BMEdge list \<Rightarrow> bool" where
  "candidates_ok A m arr \<longleftrightarrow>
     distinct arr \<and> length arr < 2 ^ 31 \<and> list_all (good_edge A m) arr"

text \<open>
  The rotations that a call makes behave as rotations: at every state of the loop of the
  call, the rotation of the edge at the top of the heap does.
\<close>

definition run_conforms ::
  "bm_api \<Rightarrow> bmesh \<Rightarrow> BMEdge list \<Rightarrow> 16 word \<Rightarrow> 16 word \<Rightarrow> 16 word \<Rightarrow> 16 word \<Rightarrow> bool" where
  "run_conforms A m arr flag method oflag_edge oflag_face \<longleftrightarrow>
     (\<forall>s h e. loop_state A m arr flag method oflag_edge oflag_face s \<longrightarrow>
        BLI_heap_pop_min (eheap s) = Some (h, e) \<longrightarrow>
        rotation_conforms A (bm s) e (edge_array s))"

subsection \<open>Invariant of the loop\<close>

text \<open>
  The slots: the array has no edge twice, and the edge of slot \<open>j\<close> has index \<open>j\<close> and
  is an edge the loop can handle.
\<close>

definition slots_ok :: "bm_api \<Rightarrow> beautify_state \<Rightarrow> bool" where
  "slots_ok A s \<longleftrightarrow>
     arrays_aligned s \<and> distinct (edge_array s) \<and>
     (\<forall>j < length (edge_array s).
        good_edge A (bm s) (edge_array s ! j) \<and>
        sint (e_index (bm s) (edge_array s ! j)) = int j)"

text \<open>The alternate state of the edge of slot \<open>j\<close> is not in the set of the slot.\<close>

definition alt_free :: "bm_api \<Rightarrow> beautify_state \<Rightarrow> nat \<Rightarrow> bool" where
  "alt_free A s j \<longleftrightarrow>
     (\<exists>vp fp. erot_state_ex A (bm s) (edge_array s ! j) = Inr (vp, fp) \<and>
              \<lparr>v_pair = fp, f_pair = vp\<rparr> \<notin> slot_set (edge_state_arr s ! j))"

text \<open>
  The nodes of the heap: every node holds the edge of a slot whose table entry is this
  node, and the alternate state of the edge is not in the set of the slot; the edges in
  \<open>P\<close> are those still to be visited by the update in progress.
\<close>

definition node_ok ::
  "bm_api \<Rightarrow> BMEdge set \<Rightarrow> beautify_state \<Rightarrow> HeapNode \<times> real \<times> BMEdge \<Rightarrow> bool" where
  "node_ok A P s y \<longleftrightarrow>
     fst y < h_next (eheap s) \<and>
     (\<exists>j < length (edge_array s).
        snd (snd y) = edge_array s ! j \<and> eheap_table s ! j = Some (fst y) \<and>
        (snd (snd y) \<notin> P \<longrightarrow> alt_free A s j))"

definition nodes_ok :: "bm_api \<Rightarrow> BMEdge set \<Rightarrow> beautify_state \<Rightarrow> bool" where
  "nodes_ok A P s \<longleftrightarrow>
     distinct (map fst (h_nodes (eheap s))) \<and> list_all (node_ok A P s) (h_nodes (eheap s))"

text \<open>Lines 234--237: the node that the table holds for a slot is removed.\<close>

definition drop_stale :: "beautify_state \<Rightarrow> nat \<Rightarrow> beautify_state" where
  "drop_stale s j =
     (case eheap_table s ! j of
        Some n \<Rightarrow> s\<lparr>eheap := BLI_heap_remove (eheap s) n,
                     eheap_table := (eheap_table s)[j := None]\<rparr>
      | None \<Rightarrow> s)"

text \<open>Lines 377--384: the tool flags set on the new edge and its two faces.\<close>

definition apply_oflags :: "bmesh \<Rightarrow> BMEdge \<Rightarrow> 16 word \<Rightarrow> 16 word \<Rightarrow> bmesh" where
  "apply_oflags m e' oflag_edge oflag_face =
     (let m3 = (if oflag_edge \<noteq> 0 then BMO_edge_flag_enable m e' oflag_edge else m)
      in if oflag_face \<noteq> 0
         then BMO_face_flag_enable
                (BMO_face_flag_enable m3 (l_f m3 (e_l m3 e')) oflag_face)
                (l_f m3 (l_radial_next m3 (e_l m3 e'))) oflag_face
         else m3)"

subsection \<open>A strip of three triangles\<close>

text \<open>
  A strip of three triangles (0,1,2), (2,1,3), (2,3,4) with the inner edges 0 = (1,2) and
  1 = (2,3). The call with the array \<open>[0, 1]\<close> rotates slot 0, then slot 1, then slot 0
  again; \<open>strip_s0\<close> to \<open>strip_s3\<close> are the states at the head of the loop.
\<close>

definition strip_mesh :: bmesh where
  "strip_mesh =
     \<lparr>e_v1 = (\<lambda>e. [1, 2, 0, 2, 1, 3, 4] ! e),
      e_v2 = (\<lambda>e. [2, 3, 1, 0, 3, 4, 2] ! e),
      e_l = (\<lambda>e. [1, 5, 0, 2, 4, 7, 8] ! e),
      l_v = (\<lambda>l. [0, 1, 2, 2, 1, 3, 2, 3, 4] ! l),
      l_e = (\<lambda>l. [2, 0, 3, 0, 4, 1, 1, 5, 6] ! l),
      l_f = (\<lambda>l. [0, 0, 0, 1, 1, 1, 2, 2, 2] ! l),
      l_next = (\<lambda>l. [1, 2, 0, 4, 5, 3, 7, 8, 6] ! l),
      l_prev = (\<lambda>l. [2, 0, 1, 5, 3, 4, 8, 6, 7] ! l),
      l_radial_next = (\<lambda>l. [0, 3, 2, 1, 4, 6, 5, 7, 8] ! l),
      f_len = (\<lambda>f. 3),
      v_co = (\<lambda>v. [(0, 0, 0), (1, 2, 0), (- 2, 3, 0), (0, 3, 0), (1, 0, 0)] ! v),
      v_index = (\<lambda>v. of_nat v),
      v_hflag = (\<lambda>v. 0),
      e_index = (\<lambda>e. - 1),
      e_oflag = (\<lambda>e. 0),
      f_oflag = (\<lambda>f. 0),
      elem_index_dirty = 0,
      edge_pool = [0, 1, 2, 3, 4, 5, 6]\<rparr>"

definition strip_arr :: "BMEdge list" where
  "strip_arr = [0, 1]"

definition strip_s0 :: beautify_state where
  "strip_s0 = build_heap tri_api 0 0 strip_mesh strip_arr"

definition strip_s1 :: beautify_state where
  "strip_s1 = projr (beautify_step tri_api 0 0 0 0 strip_s0)"

definition strip_s2 :: beautify_state where
  "strip_s2 = projr (beautify_step tri_api 0 0 0 0 strip_s1)"

definition strip_s3 :: beautify_state where
  "strip_s3 = projr (beautify_step tri_api 0 0 0 0 strip_s2)"

section \<open>Properties\<close>

subsection \<open>Termination\<close>

lemma EdRotState_UNIV: "(UNIV :: EdRotState set) = (\<lambda>(a, b). \<lparr>v_pair = a, f_pair = b\<rparr>) ` UNIV"
proof -
  have "\<And>x :: EdRotState. x \<in> (\<lambda>(a, b). \<lparr>v_pair = a, f_pair = b\<rparr>) ` UNIV"
  proof -
    fix x :: EdRotState
    have "x = (\<lambda>(a, b). \<lparr>v_pair = a, f_pair = b\<rparr>) (v_pair x, f_pair x)" by simp
    then show "x \<in> (\<lambda>(a, b). \<lparr>v_pair = a, f_pair = b\<rparr>) ` UNIV" by blast
  qed
  then show ?thesis by blast
qed

lemma finite_EdRotState: "finite (A :: EdRotState set)"
proof -
  have "finite (UNIV :: EdRotState set)"
    by (subst EdRotState_UNIV) (rule finite_imageI, simp)
  then show ?thesis by (rule finite_subset[rotated]) simp
qed

lemma slot_room_insert:
  "e \<notin> slot_set x \<Longrightarrow> slot_room (Some (insert e (slot_set x))) < slot_room x"
  unfolding slot_room_def
  by (auto intro!: psubset_card_mono finite_EdRotState split: option.splits)

lemma sum_list_update_less:
  fixes xs :: "nat list"
  shows "i < length xs \<Longrightarrow> v < xs ! i \<Longrightarrow> sum_list (xs[i := v]) < sum_list xs"
  by (induction xs arbitrary: i) (auto split: nat.splits)


lemma recalculate_edge_frame:
  "edge_state_arr (recalculate_edge A e i flag method s) = edge_state_arr s"
  "edge_array (recalculate_edge A e i flag method s) = edge_array s"
  "bm (recalculate_edge A e i flag method s) = bm s"
  "flips (recalculate_edge A e i flag method s) = flips s"
  "length (eheap_table (recalculate_edge A e i flag method s)) = length (eheap_table s)"
  by (simp_all add: recalculate_edge_def Let_def BLI_heap_insert_def)

lemma single_frame:
  assumes "bm_edge_update_beauty_cost_single A e flag method s = Inr s'"
  shows "edge_state_arr s' = edge_state_arr s \<and> edge_array s' = edge_array s \<and>
         bm s' = bm s \<and> flips s' = flips s \<and>
         length (eheap_table s') = length (eheap_table s)"
  using assms
  by (auto simp: bm_edge_update_beauty_cost_single_def Let_def recalculate_edge_frame
           split: if_splits option.splits sum.splits)

lemma loop_frame:
  "bm_edge_update_beauty_cost_loop A es flag method s = Inr s' \<Longrightarrow>
   edge_state_arr s' = edge_state_arr s \<and> edge_array s' = edge_array s \<and>
   bm s' = bm s \<and> flips s' = flips s \<and>
   length (eheap_table s') = length (eheap_table s)"
proof (induction es arbitrary: s)
  case Nil
  then show ?case by simp
next
  case (Cons e es)
  then obtain s1 where a: "bm_edge_update_beauty_cost_single A e flag method s = Inr s1"
    and b: "bm_edge_update_beauty_cost_loop A es flag method s1 = Inr s'"
    by (auto split: sum.splits)
  from single_frame[OF a] Cons.IH[OF b] show ?case by simp
qed

lemma update_cost_frame:
  "bm_edge_update_beauty_cost A e flag method s = Inr s' \<Longrightarrow>
   edge_state_arr s' = edge_state_arr s \<and> edge_array s' = edge_array s \<and>
   bm s' = bm s \<and> flips s' = flips s \<and>
   length (eheap_table s') = length (eheap_table s)"
  by (auto simp: bm_edge_update_beauty_cost_def Let_def
           simp del: bm_edge_update_beauty_cost_loop.simps dest: loop_frame split: if_splits)

lemma heap_top_mem: "heap_top ns = Some n \<Longrightarrow> n \<in> set ns"
  by (induction ns arbitrary: n) (auto split: option.splits if_splits)

lemma heap_top_None: "heap_top ns = None \<longleftrightarrow> ns = []"
  by (cases ns) (auto split: option.splits)

lemma pop_min_shrinks:
  "BLI_heap_pop_min h = Some (h', e) \<Longrightarrow> length (h_nodes h') < length (h_nodes h)"
proof -
  assume a: "BLI_heap_pop_min h = Some (h', e)"
  then obtain n where n: "heap_top (h_nodes h) = Some n"
    and h': "h' = BLI_heap_remove h (fst n)"
    by (auto simp: BLI_heap_pop_min_def split: option.splits)
  from heap_top_mem[OF n] have "n \<in> set (h_nodes h)" .
  then have "length (filter (\<lambda>x. fst x \<noteq> fst n) (h_nodes h)) < length (h_nodes h)"
    by (intro length_filter_less[of n]) auto
  with h' show ?thesis by (simp add: BLI_heap_remove_def)
qed

lemma step_aligned:
  assumes "beautify_step A flag method oflag_edge oflag_face s = Inr s'" "arrays_aligned s"
  shows "arrays_aligned s'"
  using assms unfolding beautify_step_def arrays_aligned_def
  by (auto simp: Let_def split: option.splits if_splits prod.splits sum.splits
           dest!: update_cost_frame)

lemma step_popE:
  assumes "beautify_step A flag method oflag_edge oflag_face s = Inr s'"
  obtains h e where "BLI_heap_pop_min (eheap s) = Some (h, e)"
    "0 \<le> sint (BM_elem_index_get_e (bm s) e)"
    "sint (BM_elem_index_get_e (bm s) e) < int (length (edge_array s))"
    "BM_edge_face_count_is_equal A (bm s) e 2"
  using assms
  by (auto simp: beautify_step_def Let_def split: option.splits if_splits)

lemma step_refused:
  assumes "beautify_step A flag method oflag_edge oflag_face s = Inr s'"
    and "BLI_heap_pop_min (eheap s) = Some (h, e)"
    and "BM_edge_rotate A (bm s) e = (m, None)"
  shows "s' = s\<lparr>eheap := h,
                 eheap_table := (eheap_table s)[nat (sint (BM_elem_index_get_e (bm s) e)) := None],
                 bm := m\<rparr>"
  using assms
  by (auto simp: beautify_step_def Let_def split: if_splits)

lemma step_flipped:
  assumes "beautify_step A flag method oflag_edge oflag_face s = Inr s'"
    and "BLI_heap_pop_min (eheap s) = Some (h, e)"
    and "BM_edge_rotate A (bm s) e = (m, Some e')"
  shows "\<exists>e_state s3.
           erot_state_current A m e' = Inr e_state \<and>
           e_state \<notin> (case edge_state_arr s ! nat (sint (BM_elem_index_get_e (bm s) e)) of
                         None \<Rightarrow> {} | Some S \<Rightarrow> S) \<and>
           bm_edge_update_beauty_cost A e' flag method
             (flip_state s h (BM_elem_index_get_e (bm s) e) m e' e_state) = Inr s3 \<and>
           edge_state_arr s' = edge_state_arr s3 \<and> edge_array s' = edge_array s3 \<and>
           eheap s' = eheap s3 \<and> eheap_table s' = eheap_table s3 \<and> flips s' = flips s3"
  using assms unfolding beautify_step_def flip_state_def
  by (simp add: Let_def split: if_splits sum.splits) auto

lemma step_decreases:
  assumes st: "beautify_step A flag method oflag_edge oflag_face s = Inr s'"
    and al: "arrays_aligned s"
  shows "(step_measure s', step_measure s) \<in> less_than <*lex*> less_than"
proof -
  from st obtain h e where pop: "BLI_heap_pop_min (eheap s) = Some (h, e)"
    and rng: "0 \<le> sint (BM_elem_index_get_e (bm s) e)"
             "sint (BM_elem_index_get_e (bm s) e) < int (length (edge_array s))"
    by (rule step_popE)
  define i where "i = nat (sint (BM_elem_index_get_e (bm s) e))"
  from rng have i_lt: "i < length (edge_state_arr s)"
    using al by (simp add: i_def arrays_aligned_def)
  obtain m eo where rot: "BM_edge_rotate A (bm s) e = (m, eo)" by force
  show ?thesis
  proof (cases eo)
    case None
    with step_refused[OF st pop] rot have "edge_state_arr s' = edge_state_arr s" "eheap s' = h"
      by simp_all
    with pop_min_shrinks[OF pop] show ?thesis
      by (simp add: step_measure_def rooms_def)
  next
    case (Some e')
    with step_flipped[OF st pop] rot obtain e_state s3 where
      es: "e_state \<notin> (case edge_state_arr s ! i of None \<Rightarrow> {} | Some S \<Rightarrow> S)"
      and up: "bm_edge_update_beauty_cost A e' flag method
                 (flip_state s h (BM_elem_index_get_e (bm s) e) m e' e_state) = Inr s3"
      and s': "edge_state_arr s' = edge_state_arr s3"
      unfolding i_def by blast
    from update_cost_frame[OF up] s'
    have "edge_state_arr s' = (edge_state_arr s)
            [i := Some (insert e_state (case edge_state_arr s ! i of None \<Rightarrow> {} | Some S \<Rightarrow> S))]"
      by (simp add: flip_state_def i_def)
    then have "rooms s' < rooms s"
      unfolding rooms_def using i_lt slot_room_insert[OF es]
      by (simp add: map_update sum_list_update_less)
    then show ?thesis by (simp add: step_measure_def)
  qed
qed

lemma beautify_loop_returns:
  "arrays_aligned s \<Longrightarrow> \<exists>r. beautify_loop A flag method oflag_edge oflag_face s = Some r"
proof (induction s rule: wf_induct_rule[OF wf_inv_image[OF wf_lex_prod[OF wf_less_than wf_less_than]], of step_measure])
  case (1 s)
  show ?case
  proof (cases "BLI_heap_is_empty (eheap s)")
    case True
    then show ?thesis by (subst beautify_loop.simps) simp
  next
    case False
    show ?thesis
    proof (cases "beautify_step A flag method oflag_edge oflag_face s")
      case (Inl err)
      with False show ?thesis by (subst beautify_loop.simps) simp
    next
      case (Inr s')
      from step_decreases[OF Inr 1(2)] step_aligned[OF Inr 1(2)] 1(1)[of s']
      obtain r where "beautify_loop A flag method oflag_edge oflag_face s' = Some r"
        by (auto simp: inv_image_def)
      with False Inr show ?thesis by (subst beautify_loop.simps) simp
    qed
  qed
qed

lemma build_heap_step_frame:
  "edge_state_arr (build_heap_step A flag method i s) = edge_state_arr s"
  "edge_array (build_heap_step A flag method i s) = edge_array s"
  "flips (build_heap_step A flag method i s) = flips s"
  "length (eheap_table (build_heap_step A flag method i s)) = length (eheap_table s)"
  by (simp_all add: build_heap_step_def Let_def recalculate_edge_frame)

lemma build_fold_frame:
  "edge_state_arr (fold (build_heap_step A flag method) is s) = edge_state_arr s \<and>
   edge_array (fold (build_heap_step A flag method) is s) = edge_array s \<and>
   flips (fold (build_heap_step A flag method) is s) = flips s \<and>
   length (eheap_table (fold (build_heap_step A flag method) is s)) = length (eheap_table s)"
  by (induction "is" arbitrary: s) (simp_all add: build_heap_step_frame)

lemma build_heap_frame:
  "edge_state_arr (build_heap A flag method m arr) = replicate (length arr) None"
  "edge_array (build_heap A flag method m arr) = arr"
  "flips (build_heap A flag method m arr) = []"
  "length (eheap_table (build_heap A flag method m arr)) = length arr"
  by (simp_all add: build_heap_def Let_def build_fold_frame)

lemma build_heap_aligned: "arrays_aligned (build_heap A flag method m arr)"
  by (simp add: arrays_aligned_def build_heap_frame)

text \<open>
  The call ends for every mesh library: with a final state or, when an assertion of the
  code fails, with the error that ends the call.
\<close>

lemma beautify_fill_ends:
  "\<exists>r. BM_mesh_beautify_fill A m arr flag method oflag_edge oflag_face = Some r"
  unfolding BM_mesh_beautify_fill_def
  by (rule beautify_loop_returns) (rule build_heap_aligned)

lemma loop_state_aligned:
  "loop_state A m arr flag method oflag_edge oflag_face s \<Longrightarrow> arrays_aligned s"
  by (induction rule: loop_state.induct) (auto intro: build_heap_aligned step_aligned)

subsection \<open>Only negative costs are in the heap\<close>

lemma recalculate_edge_nodes:
  "h_nodes (eheap (recalculate_edge A e i flag method s)) =
     h_nodes (eheap s) @
       (if bm_edge_calc_rotate_beauty A (bm s) e flag method < 0
        then [(h_next (eheap s), bm_edge_calc_rotate_beauty A (bm s) e flag method, e)]
        else [])"
  by (simp add: recalculate_edge_def Let_def BLI_heap_insert_def)

lemma recalculate_edge_negative:
  "heap_negative (eheap s) \<Longrightarrow> heap_negative (eheap (recalculate_edge A e i flag method s))"
  by (simp add: heap_negative_def recalculate_edge_nodes)

lemma heap_remove_negative: "heap_negative h \<Longrightarrow> heap_negative (BLI_heap_remove h n)"
  by (simp add: heap_negative_def BLI_heap_remove_def list_all_iff)

lemma single_negative:
  assumes "bm_edge_update_beauty_cost_single A e flag method s = Inr s'"
    and "heap_negative (eheap s)"
  shows "heap_negative (eheap s')"
  using assms
  by (auto simp: bm_edge_update_beauty_cost_single_def Let_def
           intro!: recalculate_edge_negative heap_remove_negative
           split: if_splits option.splits sum.splits)

lemma loop_negative:
  "bm_edge_update_beauty_cost_loop A es flag method s = Inr s' \<Longrightarrow>
   heap_negative (eheap s) \<Longrightarrow> heap_negative (eheap s')"
proof (induction es arbitrary: s)
  case Nil
  then show ?case by simp
next
  case (Cons e es)
  then obtain s1 where a: "bm_edge_update_beauty_cost_single A e flag method s = Inr s1"
    and b: "bm_edge_update_beauty_cost_loop A es flag method s1 = Inr s'"
    by (auto split: sum.splits)
  from Cons.IH[OF b single_negative[OF a Cons.prems(2)]] show ?case .
qed

lemma update_cost_negative:
  "bm_edge_update_beauty_cost A e flag method s = Inr s' \<Longrightarrow>
   heap_negative (eheap s) \<Longrightarrow> heap_negative (eheap s')"
  by (auto simp: bm_edge_update_beauty_cost_def Let_def
           simp del: bm_edge_update_beauty_cost_loop.simps dest: loop_negative split: if_splits)

lemma pop_min_negative:
  "BLI_heap_pop_min h = Some (h', e) \<Longrightarrow> heap_negative h \<Longrightarrow> heap_negative h'"
  by (auto simp: BLI_heap_pop_min_def intro: heap_remove_negative split: option.splits)

lemma step_negative:
  assumes st: "beautify_step A flag method oflag_edge oflag_face s = Inr s'"
    and neg: "heap_negative (eheap s)"
  shows "heap_negative (eheap s')"
proof -
  from st obtain h e where pop: "BLI_heap_pop_min (eheap s) = Some (h, e)"
    by (rule step_popE)
  from pop_min_negative[OF pop neg] have h: "heap_negative h" .
  obtain m eo where rot: "BM_edge_rotate A (bm s) e = (m, eo)" by force
  show ?thesis
  proof (cases eo)
    case None
    with step_refused[OF st pop] rot h show ?thesis by simp
  next
    case (Some e')
    with step_flipped[OF st pop] rot obtain e_state s3 where
      up: "bm_edge_update_beauty_cost A e' flag method
             (flip_state s h (BM_elem_index_get_e (bm s) e) m e' e_state) = Inr s3"
      and s': "eheap s' = eheap s3"
      by blast
    from update_cost_negative[OF up] h s' show ?thesis by (simp add: flip_state_def)
  qed
qed

lemma build_fold_negative:
  "heap_negative (eheap s) \<Longrightarrow> heap_negative (eheap (fold (build_heap_step A flag method) is s))"
  by (induction "is" arbitrary: s)
     (simp_all add: build_heap_step_def Let_def recalculate_edge_negative)

lemma build_heap_negative: "heap_negative (eheap (build_heap A flag method m arr))"
  unfolding build_heap_def Let_def
  by (simp, rule build_fold_negative) (simp add: heap_negative_def BLI_heap_new_ex_def)

lemma loop_state_negative:
  "loop_state A m arr flag method oflag_edge oflag_face s \<Longrightarrow> heap_negative (eheap s)"
  by (induction rule: loop_state.induct) (auto intro: build_heap_negative step_negative)

subsection \<open>Recorded states\<close>

lemma step_flips_recorded:
  assumes st: "beautify_step A flag method oflag_edge oflag_face s = Inr s'"
    and al: "arrays_aligned s"
    and fr: "flips_recorded s"
  shows "flips_recorded s'"
proof -
  from st obtain h e where pop: "BLI_heap_pop_min (eheap s) = Some (h, e)"
    and rng: "0 \<le> sint (BM_elem_index_get_e (bm s) e)"
             "sint (BM_elem_index_get_e (bm s) e) < int (length (edge_array s))"
    by (rule step_popE)
  define i where "i = nat (sint (BM_elem_index_get_e (bm s) e))"
  from rng have i_lt: "i < length (edge_state_arr s)"
    using al by (simp add: i_def arrays_aligned_def)
  obtain m eo where rot: "BM_edge_rotate A (bm s) e = (m, eo)" by force
  show ?thesis
  proof (cases eo)
    case None
    with step_refused[OF st pop] rot fr show ?thesis by (simp add: flips_recorded_def)
  next
    case (Some e')
    with step_flipped[OF st pop] rot obtain e_state s3 where
      es: "e_state \<notin> slot_set (edge_state_arr s ! i)"
      and up: "bm_edge_update_beauty_cost A e' flag method
                 (flip_state s h (BM_elem_index_get_e (bm s) e) m e' e_state) = Inr s3"
      and s': "edge_state_arr s' = edge_state_arr s3" "flips s' = flips s3"
      unfolding i_def by blast
    from update_cost_frame[OF up] s'
    have arr: "edge_state_arr s' = (edge_state_arr s)
                 [i := Some (insert e_state (slot_set (edge_state_arr s ! i)))]"
      and fl: "flips s' = flips s @ [(i, e_state)]"
      by (simp_all add: flip_state_def i_def)
    from fr have d: "distinct (flips s)"
      and old: "\<And>p. p \<in> set (flips s) \<Longrightarrow>
                  fst p < length (edge_state_arr s) \<and> snd p \<in> slot_set (edge_state_arr s ! fst p)"
      by (auto simp: flips_recorded_def list_all_iff)
    from old[of "(i, e_state)"] es have new: "(i, e_state) \<notin> set (flips s)" by auto
    have "\<And>p. p \<in> set (flips s') \<Longrightarrow>
            fst p < length (edge_state_arr s') \<and> snd p \<in> slot_set (edge_state_arr s' ! fst p)"
    proof -
      fix p assume "p \<in> set (flips s')"
      with fl have "p = (i, e_state) \<or> p \<in> set (flips s)" by auto
      then show "fst p < length (edge_state_arr s') \<and> snd p \<in> slot_set (edge_state_arr s' ! fst p)"
      proof
        assume "p = (i, e_state)"
        with arr i_lt show ?thesis by simp
      next
        assume "p \<in> set (flips s)"
        from old[OF this] arr i_lt show ?thesis
          by (cases "fst p = i") auto
      qed
    qed
    with d new fl show ?thesis by (simp add: flips_recorded_def list_all_iff)
  qed
qed

lemma build_heap_flips_recorded: "flips_recorded (build_heap A flag method m arr)"
  by (simp add: flips_recorded_def build_heap_frame)

lemma loop_state_flips_recorded:
  "loop_state A m arr flag method oflag_edge oflag_face s \<Longrightarrow> flips_recorded s"
proof (induction rule: loop_state.induct)
  case loop_init
  show ?case by (rule build_heap_flips_recorded)
next
  case (loop_pass s s')
  from step_flips_recorded[OF loop_pass(3) loop_state_aligned[OF loop_pass(1)] loop_pass(4)]
  show ?case .
qed

subsection \<open>Runs on the example meshes\<close>

lemmas tri_defs = tri_api_def tri_edge_rotate_def tri_edge_is_manifold_def tri_vert_in_edge_def
  tri_edge_face_count_is_equal_def tri_edge_exists_def tri_normal_def tri_angle_def
  diagonal_cost_def sub_v3_def dot_v3_def cross_v3_def

lemmas model_defs = build_heap_def build_heap_step_def recalculate_edge_def
  bm_edge_calc_rotate_beauty_def BM_verts_calc_rotate_beauty_def
  bm_edge_calc_rotate_beauty__angle_def BM_elem_flag_test_v_def BM_elem_index_set_e_def
  BM_elem_index_get_e_def BM_elem_index_get_v_def BLI_heap_new_ex_def BLI_heap_insert_def
  BLI_heap_remove_def BLI_heap_pop_min_def BLI_heap_is_empty_def FLT_MAX_def
  beautify_step_def bm_edge_update_beauty_cost_def bm_edge_update_beauty_cost_single_def
  edge_in_array_def erot_state_current_def erot_state_alternate_def erot_state_ex_def
  EDGE_ORD_def BMO_edge_flag_enable_def BMO_face_flag_enable_def

lemma quad_pop:
  "BLI_heap_pop_min (eheap (build_heap tri_api 0 0 quad_mesh [0])) =
     Some (\<lparr>h_nodes = [], h_next = 1\<rparr>, 0)"
  by (simp add: model_defs tri_defs quad_mesh_def Let_def)

lemma quad_index: "BM_elem_index_get_e (bm (build_heap tri_api 0 0 quad_mesh [0])) 0 = 0"
  by (simp add: model_defs tri_defs quad_mesh_def Let_def)

lemma quad_rotate:
  "snd (BM_edge_rotate tri_api (bm (build_heap tri_api 0 0 quad_mesh [0])) 0) = Some 5"
  by (simp add: model_defs tri_defs quad_mesh_def Let_def)

lemma quad_step:
  "map_sum id (\<lambda>s. (flips s, edge_array s, edge_state_arr s))
     (beautify_step tri_api 0 0 0 0 (build_heap tri_api 0 0 quad_mesh [0])) =
   Inr ([(0, \<lparr>v_pair = (0, 3), f_pair = (1, 2)\<rparr>)], [5],
        [Some {\<lparr>v_pair = (0, 3), f_pair = (1, 2)\<rparr>}])"
  by (simp add: model_defs tri_defs quad_mesh_def Let_def)

lemma Inr_projr: "map_sum f g x = Inr y \<Longrightarrow> x = Inr (projr x)"
  by (cases x) simp_all

subsection \<open>Queue entries\<close>

lemma pop_min_node:
  "BLI_heap_pop_min h = Some (h', e) \<Longrightarrow> \<exists>n c. (n, c, e) \<in> set (h_nodes h)"
proof -
  assume "BLI_heap_pop_min h = Some (h', e)"
  then obtain x where x: "heap_top (h_nodes h) = Some x" and e: "e = snd (snd x)"
    by (auto simp: BLI_heap_pop_min_def split: option.splits)
  from heap_top_mem[OF x] have "(fst x, fst (snd x), snd (snd x)) \<in> set (h_nodes h)" by simp
  with e show ?thesis by blast
qed

text \<open>
  C4: a node enters the heap only in the statements modelled by \<open>recalculate_edge\<close>
  (building the heap and updating a neighbour), with the cost just computed for the
  edge as its value and only when that cost is negative. Hence at every loop state all
  nodes of the heap have a negative value, and so has the node of the edge that is
  popped.
\<close>

theorem heap_holds_negative_costs:
  assumes "loop_state A m arr flag method oflag_edge oflag_face s"
  shows "heap_negative (eheap s) \<and>
         (\<forall>h e. BLI_heap_pop_min (eheap s) = Some (h, e) \<longrightarrow>
                (\<exists>n c. (n, c, e) \<in> set (h_nodes (eheap s)) \<and> c < 0)) \<and>
         (\<forall>e i t. h_nodes (eheap (recalculate_edge A e i flag method t)) =
                h_nodes (eheap t) @
                  (if bm_edge_calc_rotate_beauty A (bm t) e flag method < 0
                   then [(h_next (eheap t), bm_edge_calc_rotate_beauty A (bm t) e flag method, e)]
                   else []))"
proof -
  from loop_state_negative[OF assms] have neg: "heap_negative (eheap s)" .
  have "\<And>h e. BLI_heap_pop_min (eheap s) = Some (h, e) \<Longrightarrow>
          \<exists>n c. (n, c, e) \<in> set (h_nodes (eheap s)) \<and> c < 0"
  proof -
    fix h e assume "BLI_heap_pop_min (eheap s) = Some (h, e)"
    from pop_min_node[OF this] obtain n c where "(n, c, e) \<in> set (h_nodes (eheap s))" by blast
    moreover from this neg have "c < 0"
      by (force simp: heap_negative_def list_all_iff)
    ultimately show "\<exists>n c. (n, c, e) \<in> set (h_nodes (eheap s)) \<and> c < 0"
      by blast
  qed
  with neg show ?thesis by (simp add: recalculate_edge_nodes)
qed

lemma quad_nodes: "h_nodes (eheap (build_heap tri_api 0 0 quad_mesh [0])) = [(0, - 32, 0)]"
  by (simp add: model_defs tri_defs quad_mesh_def Let_def)

theorem heap_holds_negative_costs_witness:
  "heap_negative (eheap (build_heap tri_api 0 0 quad_mesh [0])) \<and>
   (\<exists>n c. (n, c, 0) \<in> set (h_nodes (eheap (build_heap tri_api 0 0 quad_mesh [0]))) \<and> c < 0) \<and>
   h_nodes (eheap (build_heap tri_api 0 0 quad_mesh [0])) = [(0, - 32, 0)]"
  using heap_holds_negative_costs[OF loop_init[of tri_api quad_mesh "[0]" 0 0 0 0]]
    quad_pop quad_nodes
  by simp

subsection \<open>A refused rotation\<close>

text \<open>
  C6: when \<open>BM_edge_rotate\<close> returns no edge, the pass of the loop ends with the state
  it had after the pop: the heap without the popped node, the table entry of the slot
  cleared, and the mesh as the rotation call left it. No state is recorded, the array
  keeps its entry, no flag is set, no edge is recalculated, and the loop goes on with
  that state.
\<close>

theorem refused_rotation_is_absorbed:
  assumes pop: "BLI_heap_pop_min (eheap s) = Some (h, e)"
    and lo: "0 \<le> sint (BM_elem_index_get_e (bm s) e)"
    and hi: "sint (BM_elem_index_get_e (bm s) e) < int (length (edge_array s))"
    and fc: "BM_edge_face_count_is_equal A (bm s) e 2"
    and rot: "BM_edge_rotate A (bm s) e = (m, None)"
    and s': "s' = s\<lparr>eheap := h,
                     eheap_table := (eheap_table s)[nat (sint (BM_elem_index_get_e (bm s) e)) := None],
                     bm := m\<rparr>"
  shows "beautify_step A flag method oflag_edge oflag_face s = Inr s' \<and>
         edge_state_arr s' = edge_state_arr s \<and>
         edge_array s' = edge_array s \<and>
         flips s' = flips s \<and>
         bm s' = m \<and>
         eheap s' = h \<and>
         beautify_loop A flag method oflag_edge oflag_face s =
           beautify_loop A flag method oflag_edge oflag_face s'"
proof -
  from pop lo hi fc rot have st: "beautify_step A flag method oflag_edge oflag_face s = Inr s'"
    by (simp add: beautify_step_def Let_def s')
  from pop have ne: "\<not> BLI_heap_is_empty (eheap s)"
    by (auto simp: BLI_heap_is_empty_def BLI_heap_pop_min_def)
  have "beautify_loop A flag method oflag_edge oflag_face s =
          beautify_loop A flag method oflag_edge oflag_face s'"
    by (subst beautify_loop.simps) (simp add: ne st)
  with st show ?thesis by (simp add: s')
qed

subsection \<open>The array of edges\<close>

text \<open>
  C9: a pass of the loop that rotates the edge popped for slot \<open>i\<close> writes the new edge
  to entry \<open>i\<close> of the array and leaves every other entry as it was; a pass whose
  rotation is refused leaves the array as it was. The length never changes.
\<close>

theorem edge_array_updated_in_place:
  assumes st: "beautify_step A flag method oflag_edge oflag_face s = Inr s'"
    and pop: "BLI_heap_pop_min (eheap s) = Some (h, e)"
    and rot: "BM_edge_rotate A (bm s) e = (m, eo)"
    and i: "i = nat (sint (BM_elem_index_get_e (bm s) e))"
  shows "length (edge_array s') = length (edge_array s) \<and>
         i < length (edge_array s) \<and>
         (case eo of
            None \<Rightarrow> edge_array s' = edge_array s
          | Some e' \<Rightarrow>
              edge_array s' = (edge_array s)[i := e'] \<and>
              edge_array s' ! i = e' \<and>
              (\<forall>j. j \<noteq> i \<longrightarrow> edge_array s' ! j = edge_array s ! j))"
proof -
  from st pop have rng: "0 \<le> sint (BM_elem_index_get_e (bm s) e)"
      "sint (BM_elem_index_get_e (bm s) e) < int (length (edge_array s))"
    by (auto elim!: step_popE)
  then have i_lt: "i < length (edge_array s)" by (simp add: i)
  show ?thesis
  proof (cases eo)
    case None
    with step_refused[OF st pop] rot i_lt show ?thesis by simp
  next
    case (Some e')
    with step_flipped[OF st pop] rot obtain e_state s3 where
      up: "bm_edge_update_beauty_cost A e' flag method
             (flip_state s h (BM_elem_index_get_e (bm s) e) m e' e_state) = Inr s3"
      and s': "edge_array s' = edge_array s3"
      by blast
    from update_cost_frame[OF up] s' have "edge_array s' = (edge_array s)[i := e']"
      by (simp add: flip_state_def i)
    with i_lt Some show ?thesis by simp
  qed
qed

theorem edge_array_updated_in_place_witness:
  "length (edge_array (projr (beautify_step tri_api 0 0 0 0 (build_heap tri_api 0 0 quad_mesh [0]))))
     = length (edge_array (build_heap tri_api 0 0 quad_mesh [0])) \<and>
   edge_array (projr (beautify_step tri_api 0 0 0 0 (build_heap tri_api 0 0 quad_mesh [0])))
     = (edge_array (build_heap tri_api 0 0 quad_mesh [0]))[0 := 5] \<and>
   edge_array (projr (beautify_step tri_api 0 0 0 0 (build_heap tri_api 0 0 quad_mesh [0]))) ! 0 = 5"
proof -
  have rot: "BM_edge_rotate tri_api (bm (build_heap tri_api 0 0 quad_mesh [0])) 0 =
      (fst (BM_edge_rotate tri_api (bm (build_heap tri_api 0 0 quad_mesh [0])) 0), Some 5)"
    using quad_rotate by (simp add: prod_eq_iff)
  show ?thesis
    using edge_array_updated_in_place[OF Inr_projr[OF quad_step] quad_pop rot refl]
    by (simp add: quad_index)
qed

lemma fan_pop:
  "BLI_heap_pop_min (eheap fan_start) = Some (\<lparr>h_nodes = [(1, - 2, 1)], h_next = 2\<rparr>, 0)"
  by (simp add: fan_start_def model_defs tri_defs fan_mesh_def Let_def)

lemma fan_index: "BM_elem_index_get_e (bm fan_start) 0 = 0"
  by (simp add: fan_start_def model_defs tri_defs fan_mesh_def Let_def)

lemma fan_face_count: "BM_edge_face_count_is_equal tri_api (bm fan_start) 0 2"
  by (simp add: fan_start_def model_defs tri_defs fan_mesh_def Let_def)

lemma fan_rotate: "BM_edge_rotate tri_api (bm fan_start) 0 = (bm fan_start, None)"
  by (simp add: fan_start_def model_defs tri_defs fan_mesh_def Let_def)

lemma fan_length: "length (edge_array fan_start) = 2"
  by (simp add: fan_start_def build_heap_frame)

theorem refused_rotation_is_absorbed_witness:
  "(let s' = fan_start\<lparr>eheap := \<lparr>h_nodes = [(1, - 2, 1)], h_next = 2\<rparr>,
                       eheap_table := (eheap_table fan_start)[0 := None],
                       bm := bm fan_start\<rparr>
    in beautify_step tri_api 0 0 0 0 fan_start = Inr s' \<and>
       edge_state_arr s' = edge_state_arr fan_start \<and>
       edge_array s' = edge_array fan_start \<and>
       flips s' = flips fan_start \<and>
       bm s' = bm fan_start \<and>
       beautify_loop tri_api 0 0 0 0 fan_start = beautify_loop tri_api 0 0 0 0 s')"
proof -
  have lo: "0 \<le> sint (BM_elem_index_get_e (bm fan_start) 0)"
    and hi: "sint (BM_elem_index_get_e (bm fan_start) 0) < int (length (edge_array fan_start))"
    by (simp_all add: fan_index fan_length)
  show ?thesis
    using refused_rotation_is_absorbed[OF fan_pop lo hi fan_face_count fan_rotate refl,
        of 0 0 0 0]
    by (simp add: Let_def fan_index)
qed

subsection \<open>The alternate state\<close>

lemma EDGE_ORD_sorted: "sint (fst (EDGE_ORD p)) \<le> sint (snd (EDGE_ORD p))"
  by (cases p) (simp add: EDGE_ORD_def)

lemma erot_state_currentD:
  assumes "erot_state_current A m e = Inr cur"
  shows "BM_edge_is_manifold A m e"
    and "erot_state_ex A m e = Inr (v_pair cur, f_pair cur)"
    and "erot_state_alternate A m e = Inr \<lparr>v_pair = f_pair cur, f_pair = v_pair cur\<rparr>"
    and "sint (fst (v_pair cur)) \<le> sint (snd (v_pair cur))"
    and "sint (fst (f_pair cur)) \<le> sint (snd (f_pair cur))"
proof -
  from assms show "BM_edge_is_manifold A m e"
    by (auto simp: erot_state_current_def erot_state_ex_def split: sum.splits if_splits)
  from assms show ex: "erot_state_ex A m e = Inr (v_pair cur, f_pair cur)"
    by (auto simp: erot_state_current_def split: sum.splits)
  then show "erot_state_alternate A m e = Inr \<lparr>v_pair = f_pair cur, f_pair = v_pair cur\<rparr>"
    by (simp add: erot_state_alternate_def)
  from ex have "v_pair cur = EDGE_ORD (BM_elem_index_get_v m (e_v1 m e),
                                        BM_elem_index_get_v m (e_v2 m e))"
    and "f_pair cur = EDGE_ORD (BM_elem_index_get_v m (l_v m (l_prev m (e_l m e))),
           BM_elem_index_get_v m (l_v m (l_prev m (l_radial_next m (e_l m e)))))"
    by (simp_all add: erot_state_ex_def Let_def split: if_splits)
  then show "sint (fst (v_pair cur)) \<le> sint (snd (v_pair cur))"
    and "sint (fst (f_pair cur)) \<le> sint (snd (f_pair cur))"
    by (simp_all add: EDGE_ORD_sorted)
qed

text \<open>
  C3: the alternate state of an edge is its current state with the sorted pair of the
  edge's vertices and the sorted pair of the opposite vertices exchanged. When an edge of
  the array is updated and the set of its slot holds the alternate state, the update ends
  after removing the node that the table held for the slot: the table entry is cleared and
  no node is inserted. The test is made where an edge is put back into the heap; the loop
  rotates only edges that it pops from the heap.
\<close>

theorem alternate_state_blocks_requeue:
  assumes in_arr: "edge_in_array (bm s) e (edge_array s)"
    and al: "arrays_aligned s"
    and i: "i = nat (sint (BM_elem_index_get_e (bm s) e))"
    and set: "edge_state_arr s ! i = Some S"
    and cur: "erot_state_current A (bm s) e = Inr cur"
    and mem: "\<lparr>v_pair = f_pair cur, f_pair = v_pair cur\<rparr> \<in> S"
  shows "erot_state_alternate A (bm s) e = Inr \<lparr>v_pair = f_pair cur, f_pair = v_pair cur\<rparr> \<and>
         sint (fst (v_pair cur)) \<le> sint (snd (v_pair cur)) \<and>
         sint (fst (f_pair cur)) \<le> sint (snd (f_pair cur)) \<and>
         (\<exists>s'. bm_edge_update_beauty_cost_single A e flag method s = Inr s' \<and>
               eheap_table s' = (eheap_table s)[i := None] \<and>
               eheap_table s' ! i = None \<and>
               h_nodes (eheap s') =
                 filter (\<lambda>x. Some (fst x) \<noteq> eheap_table s ! i) (h_nodes (eheap s)) \<and>
               h_next (eheap s') = h_next (eheap s) \<and>
               edge_state_arr s' = edge_state_arr s \<and> edge_array s' = edge_array s \<and>
               bm s' = bm s)"
proof -
  note d = erot_state_currentD[OF cur]
  from in_arr al have i_lt: "i < length (eheap_table s)"
    by (auto simp: edge_in_array_def arrays_aligned_def i Let_def)
  define s' where "s' = (case eheap_table s ! i of
                    Some n \<Rightarrow> s\<lparr>eheap := BLI_heap_remove (eheap s) n,
                                 eheap_table := (eheap_table s)[i := None]\<rparr>
                  | None \<Rightarrow> s)"
  from in_arr set d(1,3) mem
  have "bm_edge_update_beauty_cost_single A e flag method s = Inr s'"
    by (simp add: bm_edge_update_beauty_cost_single_def Let_def i[symmetric] s'_def)
  moreover have "eheap_table s' = (eheap_table s)[i := None]"
    by (cases "eheap_table s ! i") (simp_all add: s'_def list_update_same_conv[THEN iffD2] i_lt)
  moreover from this i_lt have "eheap_table s' ! i = None" by simp
  moreover have "h_nodes (eheap s') =
                   filter (\<lambda>x. Some (fst x) \<noteq> eheap_table s ! i) (h_nodes (eheap s))"
    by (cases "eheap_table s ! i") (simp_all add: s'_def BLI_heap_remove_def)
  moreover have "h_next (eheap s') = h_next (eheap s)" "edge_state_arr s' = edge_state_arr s"
    "edge_array s' = edge_array s" "bm s' = bm s"
    by (cases "eheap_table s ! i"; simp add: s'_def BLI_heap_remove_def)+
  ultimately show ?thesis using d by blast
qed

lemma quad_visited_facts:
  "edge_in_array (bm quad_visited) 0 (edge_array quad_visited)"
  "arrays_aligned quad_visited"
  "nat (sint (BM_elem_index_get_e (bm quad_visited) 0)) = 0"
  "erot_state_current tri_api (bm quad_visited) 0 = Inr \<lparr>v_pair = (1, 2), f_pair = (0, 3)\<rparr>"
  "eheap_table quad_visited = [Some 0]"
  "h_nodes (eheap quad_visited) = [(0, - 32, 0)]"
  by (simp_all add: quad_visited_def quad_start_def arrays_aligned_def model_defs tri_defs
        quad_mesh_def Let_def)

theorem alternate_state_blocks_requeue_witness:
  "erot_state_alternate tri_api (bm quad_visited) 0 = Inr \<lparr>v_pair = (0, 3), f_pair = (1, 2)\<rparr> \<and>
   (\<exists>s'. bm_edge_update_beauty_cost_single tri_api 0 0 0 quad_visited = Inr s' \<and>
         eheap_table s' = [None] \<and> h_nodes (eheap s') = [])"
proof -
  have set: "edge_state_arr quad_visited ! 0 = Some {\<lparr>v_pair = (0, 3), f_pair = (1, 2)\<rparr>}"
    by (simp add: quad_visited_def)
  have mem: "\<lparr>v_pair = f_pair \<lparr>v_pair = (1, 2), f_pair = (0, 3)\<rparr>,
              f_pair = v_pair \<lparr>v_pair = (1, 2), f_pair = (0, 3)\<rparr>\<rparr>
               \<in> {\<lparr>v_pair = (0, 3), f_pair = (1, 2) :: 32 word \<times> 32 word\<rparr>}"
    by simp
  show ?thesis
    using alternate_state_blocks_requeue[OF quad_visited_facts(1,2) quad_visited_facts(3)[symmetric]
        set quad_visited_facts(4) mem, of 0 0]
    by (auto simp: quad_visited_facts)
qed

subsection \<open>Slots without a set\<close>

lemma index_variant_refl: "index_variant m m"
  by (simp add: index_variant_def)

lemma index_variantE:
  assumes "index_variant m' m"
  obtains f d where "m' = m\<lparr>e_index := f, elem_index_dirty := d\<rparr>"
  using assms unfolding index_variant_def by blast

lemma index_variant_set:
  "index_variant m' m \<Longrightarrow> index_variant (BM_elem_index_set_e m' e i) m"
  by (erule index_variantE) (simp add: index_variant_def BM_elem_index_set_e_def)

lemma index_variant_dirty:
  "index_variant m' m \<Longrightarrow> index_variant (m'\<lparr>elem_index_dirty := d\<rparr>) m"
  by (erule index_variantE) (simp add: index_variant_def)

lemma cost_index_variant:
  "index_variant m' m \<Longrightarrow>
   bm_edge_calc_rotate_beauty A m' e flag method = bm_edge_calc_rotate_beauty A m e flag method"
  by (erule index_variantE)
     (simp add: bm_edge_calc_rotate_beauty_def BM_verts_calc_rotate_beauty_def
        BM_elem_flag_test_v_def Let_def)

text \<open>The state after the first \<open>k\<close> passes of the loop that builds the heap.\<close>

lemma build_prefix:
  assumes "k \<le> length arr"
    and "s0 = \<lparr>bm = m, edge_array = arr, eheap = BLI_heap_new_ex (length arr),
                eheap_table = replicate (length arr) None,
                edge_state_arr = replicate (length arr) None, flips = []\<rparr>"
    and "s = fold (build_heap_step A flag method) [0..<k] s0"
  shows "index_variant (bm s) m \<and> edge_array s = arr \<and> length (eheap_table s) = length arr \<and>
         (\<forall>i<k. bm_edge_calc_rotate_beauty A m (arr ! i) flag method < 0 \<longrightarrow>
            (\<exists>n. eheap_table s ! i = Some n \<and>
                 (n, bm_edge_calc_rotate_beauty A m (arr ! i) flag method, arr ! i)
                   \<in> set (h_nodes (eheap s))))"
  using assms
proof (induction k arbitrary: s)
  case 0
  then show ?case by (simp add: index_variant_refl)
next
  case (Suc k)
  define t where "t = fold (build_heap_step A flag method) [0..<k] s0"
  from Suc.prems have s: "s = build_heap_step A flag method k t"
    by (simp add: t_def)
  from Suc.IH[OF _ Suc.prems(2) t_def] Suc.prems(1)
  have iv: "index_variant (bm t) m" and ea: "edge_array t = arr"
    and len: "length (eheap_table t) = length arr"
    and old: "\<And>i. i < k \<Longrightarrow> bm_edge_calc_rotate_beauty A m (arr ! i) flag method < 0 \<Longrightarrow>
            \<exists>n. eheap_table t ! i = Some n \<and>
                 (n, bm_edge_calc_rotate_beauty A m (arr ! i) flag method, arr ! i)
                   \<in> set (h_nodes (eheap t))"
    by auto
  have c: "bm_edge_calc_rotate_beauty A (bm t) (arr ! k) flag method =
           bm_edge_calc_rotate_beauty A m (arr ! k) flag method"
    by (rule cost_index_variant[OF iv])
  have bm_s: "bm s = BM_elem_index_set_e (bm t) (arr ! k) (of_nat k)"
    by (simp add: s build_heap_step_def Let_def recalculate_edge_frame ea)
  have nodes: "h_nodes (eheap s) = h_nodes (eheap t) @
      (if bm_edge_calc_rotate_beauty A m (arr ! k) flag method < 0
       then [(h_next (eheap t), bm_edge_calc_rotate_beauty A m (arr ! k) flag method, arr ! k)]
       else [])"
    by (simp add: s build_heap_step_def Let_def recalculate_edge_nodes ea c)
  have tab: "eheap_table s = (eheap_table t)
      [k := if bm_edge_calc_rotate_beauty A m (arr ! k) flag method < 0
            then Some (h_next (eheap t)) else None]"
    by (simp add: s build_heap_step_def Let_def recalculate_edge_def BLI_heap_insert_def ea c)
  have "\<And>i. i < Suc k \<Longrightarrow> bm_edge_calc_rotate_beauty A m (arr ! i) flag method < 0 \<Longrightarrow>
          \<exists>n. eheap_table s ! i = Some n \<and>
               (n, bm_edge_calc_rotate_beauty A m (arr ! i) flag method, arr ! i)
                 \<in> set (h_nodes (eheap s))"
  proof -
    fix i assume i: "i < Suc k"
      and neg: "bm_edge_calc_rotate_beauty A m (arr ! i) flag method < 0"
    show "\<exists>n. eheap_table s ! i = Some n \<and>
               (n, bm_edge_calc_rotate_beauty A m (arr ! i) flag method, arr ! i)
                 \<in> set (h_nodes (eheap s))"
    proof (cases "i = k")
      case True
      with neg Suc.prems(1) len show ?thesis by (simp add: tab nodes)
    next
      case False
      with i have "i < k" by simp
      from old[OF this neg] False show ?thesis by (auto simp: tab nodes)
    qed
  qed
  moreover have "index_variant (bm s) m"
    unfolding bm_s by (rule index_variant_set[OF iv])
  moreover have "edge_array s = arr" "length (eheap_table s) = length arr"
    by (simp_all add: s build_heap_step_frame ea len)
  ultimately show ?case by blast
qed

text \<open>
  C10: a slot whose set has not been created is not held back by the test of the alternate
  state. When an edge of the array is updated, its slot has no set and its cost is
  negative, a node with that cost is inserted for it and the table entry of the slot is
  that node. Building the heap makes no such test at all: every slot whose edge has a
  negative cost gets a node with that cost.
\<close>

theorem absent_set_never_blocks:
  "(edge_in_array (bm s) e (edge_array s) \<and> arrays_aligned s \<and>
    i = nat (sint (BM_elem_index_get_e (bm s) e)) \<and>
    edge_state_arr s ! i = None \<and>
    BM_edge_is_manifold A (bm s) e \<and>
    bm_edge_calc_rotate_beauty A (bm s) e flag method < 0 \<longrightarrow>
      (\<exists>s'. bm_edge_update_beauty_cost_single A e flag method s = Inr s' \<and>
            eheap_table s' ! i = Some (h_next (eheap s)) \<and>
            (h_next (eheap s), bm_edge_calc_rotate_beauty A (bm s) e flag method, e)
              \<in> set (h_nodes (eheap s')))) \<and>
   (k < length arr \<and> bm_edge_calc_rotate_beauty A m (arr ! k) flag method < 0 \<longrightarrow>
      (\<exists>n. eheap_table (build_heap A flag method m arr) ! k = Some n \<and>
           (n, bm_edge_calc_rotate_beauty A m (arr ! k) flag method, arr ! k)
             \<in> set (h_nodes (eheap (build_heap A flag method m arr)))))"
proof (intro conjI impI)
  assume a: "edge_in_array (bm s) e (edge_array s) \<and> arrays_aligned s \<and>
    i = nat (sint (BM_elem_index_get_e (bm s) e)) \<and>
    edge_state_arr s ! i = None \<and>
    BM_edge_is_manifold A (bm s) e \<and>
    bm_edge_calc_rotate_beauty A (bm s) e flag method < 0"
  then have in_arr: "edge_in_array (bm s) e (edge_array s)"
    and i: "i = nat (sint (BM_elem_index_get_e (bm s) e))"
    and none: "edge_state_arr s ! i = None"
    and man: "BM_edge_is_manifold A (bm s) e"
    by blast+
  from a have i_lt: "i < length (eheap_table s)"
    by (auto simp: edge_in_array_def arrays_aligned_def Let_def)
  define s1 where "s1 = (case eheap_table s ! i of
                    Some n \<Rightarrow> s\<lparr>eheap := BLI_heap_remove (eheap s) n,
                                 eheap_table := (eheap_table s)[i := None]\<rparr>
                  | None \<Rightarrow> s)"
  have s1: "bm s1 = bm s" "h_next (eheap s1) = h_next (eheap s)"
    "length (eheap_table s1) = length (eheap_table s)"
    by (cases "eheap_table s ! i"; simp add: s1_def BLI_heap_remove_def)+
  from in_arr none man have "bm_edge_update_beauty_cost_single A e flag method s =
                 Inr (recalculate_edge A e i flag method s1)"
    by (simp add: bm_edge_update_beauty_cost_single_def Let_def s1_def i[symmetric])
  moreover from a i_lt
  have "eheap_table (recalculate_edge A e i flag method s1) ! i = Some (h_next (eheap s))"
    by (simp add: recalculate_edge_def Let_def BLI_heap_insert_def s1)
  moreover from a
  have "(h_next (eheap s), bm_edge_calc_rotate_beauty A (bm s) e flag method, e)
          \<in> set (h_nodes (eheap (recalculate_edge A e i flag method s1)))"
    by (simp add: recalculate_edge_nodes s1)
  ultimately show "\<exists>s'. bm_edge_update_beauty_cost_single A e flag method s = Inr s' \<and>
            eheap_table s' ! i = Some (h_next (eheap s)) \<and>
            (h_next (eheap s), bm_edge_calc_rotate_beauty A (bm s) e flag method, e)
              \<in> set (h_nodes (eheap s'))"
    by blast
next
  assume b: "k < length arr \<and> bm_edge_calc_rotate_beauty A m (arr ! k) flag method < 0"
  from build_prefix[OF le_refl refl refl, where arr = arr and A = A and m = m] b
  obtain n where "eheap_table (fold (build_heap_step A flag method) [0..<length arr]
        \<lparr>bm = m, edge_array = arr, eheap = BLI_heap_new_ex (length arr),
           eheap_table = replicate (length arr) None,
           edge_state_arr = replicate (length arr) None, flips = []\<rparr>) ! k = Some n"
    and "(n, bm_edge_calc_rotate_beauty A m (arr ! k) flag method, arr ! k)
           \<in> set (h_nodes (eheap (fold (build_heap_step A flag method) [0..<length arr]
        \<lparr>bm = m, edge_array = arr, eheap = BLI_heap_new_ex (length arr),
           eheap_table = replicate (length arr) None,
           edge_state_arr = replicate (length arr) None, flips = []\<rparr>)))"
    by blast
  then show "\<exists>n. eheap_table (build_heap A flag method m arr) ! k = Some n \<and>
           (n, bm_edge_calc_rotate_beauty A m (arr ! k) flag method, arr ! k)
             \<in> set (h_nodes (eheap (build_heap A flag method m arr)))"
    by (simp add: build_heap_def Let_def)
qed


lemma quad_start_facts:
  "edge_in_array (bm quad_start) 0 (edge_array quad_start)"
  "arrays_aligned quad_start"
  "nat (sint (BM_elem_index_get_e (bm quad_start) 0)) = 0"
  "edge_state_arr quad_start = [None]"
  "BM_edge_is_manifold tri_api (bm quad_start) 0"
  "bm_edge_calc_rotate_beauty tri_api (bm quad_start) 0 0 0 = - 32"
  "bm_edge_calc_rotate_beauty tri_api quad_mesh 0 0 0 = - 32"
  "h_next (eheap quad_start) = 1"
  by (simp_all add: quad_start_def arrays_aligned_def model_defs tri_defs quad_mesh_def Let_def)

theorem absent_set_never_blocks_witness:
  "(\<exists>s'. bm_edge_update_beauty_cost_single tri_api 0 0 0 quad_start = Inr s' \<and>
         eheap_table s' ! 0 = Some 1 \<and> (1, - 32, 0) \<in> set (h_nodes (eheap s'))) \<and>
   (\<exists>n. eheap_table quad_start ! 0 = Some n \<and> (n, - 32, 0) \<in> set (h_nodes (eheap quad_start)))"
  using absent_set_never_blocks[where s = quad_start and e = 0 and i = 0 and A = tri_api
      and flag = 0 and k = 0 and arr = "[0]" and m = quad_mesh, of 0]
  by (simp add: quad_start_facts quad_start_def[symmetric])

subsection \<open>Costs that keep an edge out of the heap\<close>

lemma FLT_MAX_nonneg: "0 \<le> FLT_MAX"
  by (simp add: FLT_MAX_def)

lemma recalculate_edge_sentinel:
  "bm_edge_calc_rotate_beauty A (bm s) e flag method = FLT_MAX \<Longrightarrow>
   h_nodes (eheap (recalculate_edge A e i flag method s)) = h_nodes (eheap s) \<and>
   eheap_table (recalculate_edge A e i flag method s) = (eheap_table s)[i := None]"
  by (simp add: recalculate_edge_def Let_def FLT_MAX_def)

text \<open>
  C7: the angle cost is \<open>FLT_MAX\<close> whenever the normal of (v1, v2, v3) or of
  (v1, v3, v4), the two triangles after the rotation, has length zero. \<open>FLT_MAX\<close> is not
  negative, so with the angle method an edge whose rotation would make such a triangle
  gets no node when its cost is recalculated, neither when the heap is built nor when a
  neighbour is updated; the loop rotates only edges popped from the heap.
\<close>

theorem angle_degenerate_never_queued:
  "(snd (normal_tri_v3 A v1 v2 v3) = 0 \<or> snd (normal_tri_v3 A v1 v3 v4) = 0 \<longrightarrow>
      bm_edge_calc_rotate_beauty__angle A v1 v2 v3 v4 = FLT_MAX) \<and>
   0 \<le> FLT_MAX \<and>
   (method \<noteq> 0 \<and>
    (let m = bm s;
         c1 = v_co m (l_v m (l_prev m (e_l m e)));
         c2 = v_co m (l_v m (e_l m e));
         c3 = v_co m (l_v m (l_prev m (l_radial_next m (e_l m e))));
         c4 = v_co m (l_v m (l_next m (e_l m e)))
     in snd (normal_tri_v3 A c1 c2 c3) = 0 \<or> snd (normal_tri_v3 A c1 c3 c4) = 0) \<longrightarrow>
      bm_edge_calc_rotate_beauty A (bm s) e flag method = FLT_MAX \<and>
      h_nodes (eheap (recalculate_edge A e i flag method s)) = h_nodes (eheap s) \<and>
      eheap_table (recalculate_edge A e i flag method s) = (eheap_table s)[i := None])"
proof (intro conjI impI)
  assume "snd (normal_tri_v3 A v1 v2 v3) = 0 \<or> snd (normal_tri_v3 A v1 v3 v4) = 0"
  then show "bm_edge_calc_rotate_beauty__angle A v1 v2 v3 v4 = FLT_MAX"
    by (auto simp: bm_edge_calc_rotate_beauty__angle_def Let_def)
next
  show "0 \<le> FLT_MAX" by (rule FLT_MAX_nonneg)
next
  assume a: "method \<noteq> 0 \<and>
    (let m = bm s;
         c1 = v_co m (l_v m (l_prev m (e_l m e)));
         c2 = v_co m (l_v m (e_l m e));
         c3 = v_co m (l_v m (l_prev m (l_radial_next m (e_l m e))));
         c4 = v_co m (l_v m (l_next m (e_l m e)))
     in snd (normal_tri_v3 A c1 c2 c3) = 0 \<or> snd (normal_tri_v3 A c1 c3 c4) = 0)"
  then have c: "bm_edge_calc_rotate_beauty A (bm s) e flag method = FLT_MAX"
    by (auto simp: bm_edge_calc_rotate_beauty_def BM_verts_calc_rotate_beauty_def
          bm_edge_calc_rotate_beauty__angle_def Let_def)
  from c show "bm_edge_calc_rotate_beauty A (bm s) e flag method = FLT_MAX" .
  from recalculate_edge_sentinel[OF c]
  show "h_nodes (eheap (recalculate_edge A e i flag method s)) = h_nodes (eheap s)"
    and "eheap_table (recalculate_edge A e i flag method s) = (eheap_table s)[i := None]"
    by simp_all
qed

lemma flat_start_facts:
  "snd (normal_tri_v3 tri_api (- 1, 0, 0) (0, 0, 0) (1, 0, 0)) = 0"
  "v_co (bm flat_start) (l_v (bm flat_start) (l_prev (bm flat_start) (e_l (bm flat_start) 0)))
     = (- 1, 0, 0)"
  "v_co (bm flat_start) (l_v (bm flat_start) (e_l (bm flat_start) 0)) = (0, 0, 0)"
  "v_co (bm flat_start) (l_v (bm flat_start)
     (l_prev (bm flat_start) (l_radial_next (bm flat_start) (e_l (bm flat_start) 0)))) = (1, 0, 0)"
  "h_nodes (eheap flat_start) = []"
  "eheap_table flat_start = [None]"
  by (simp_all add: flat_start_def flat_mesh_def model_defs tri_defs quad_mesh_def Let_def)

theorem angle_degenerate_never_queued_witness:
  "bm_edge_calc_rotate_beauty__angle tri_api (- 1, 0, 0) (0, 0, 0) (1, 0, 0) (0, 3, 0) = FLT_MAX \<and>
   bm_edge_calc_rotate_beauty tri_api (bm flat_start) 0 0 1 = FLT_MAX \<and>
   h_nodes (eheap (recalculate_edge tri_api 0 0 0 1 flat_start)) = [] \<and>
   eheap_table (recalculate_edge tri_api 0 0 0 1 flat_start) = [None]"
  using angle_degenerate_never_queued[where A = tri_api and ?v1.0 = "(- 1, 0, 0)"
      and ?v2.0 = "(0, 0, 0)" and ?v3.0 = "(1, 0, 0)" and ?v4.0 = "(0, 3, 0)"
      and s = flat_start and e = 0 and i = 0 and flag = 0, of 1]
  by (simp add: flat_start_facts Let_def)

text \<open>
  C8: when the two opposite vertices \<open>v1\<close> and \<open>v3\<close> are the same vertex, or the flag
  \<open>VERT_RESTRICT_TAG\<close> is set and both have the same tag, \<open>BM_verts_calc_rotate_beauty\<close>
  returns \<open>FLT_MAX\<close>, whatever the coordinates and whatever the vector functions and the
  area function compute. An edge with such opposite vertices gets no node when its cost
  is recalculated.
\<close>

theorem apex_short_circuit:
  "(v1 = v3 \<or>
    (flag AND VERT_RESTRICT_TAG A \<noteq> 0 \<and>
     BM_elem_flag_test_v m v1 (BM_ELEM_TAG A) = BM_elem_flag_test_v m v3 (BM_ELEM_TAG A)) \<longrightarrow>
      BM_verts_calc_rotate_beauty A m v1 v2 v3 v4 flag method = FLT_MAX \<and>
      BM_verts_calc_rotate_beauty
        (A\<lparr>normal_tri_v3 := nf, angle_normalized_v3v3 := af,
           BLI_polyfill_edge_calc_rotate_beauty__area := pf\<rparr>)
        (m\<lparr>v_co := cf\<rparr>) v1 v2 v3 v4 flag method = FLT_MAX) \<and>
   0 \<le> FLT_MAX \<and>
   ((let a = l_v (bm s) (l_prev (bm s) (e_l (bm s) e));
         b = l_v (bm s) (l_prev (bm s) (l_radial_next (bm s) (e_l (bm s) e)))
     in a = b \<or>
        (flag AND VERT_RESTRICT_TAG A \<noteq> 0 \<and>
         BM_elem_flag_test_v (bm s) a (BM_ELEM_TAG A) =
           BM_elem_flag_test_v (bm s) b (BM_ELEM_TAG A))) \<longrightarrow>
      bm_edge_calc_rotate_beauty A (bm s) e flag method = FLT_MAX \<and>
      h_nodes (eheap (recalculate_edge A e i flag method s)) = h_nodes (eheap s) \<and>
      eheap_table (recalculate_edge A e i flag method s) = (eheap_table s)[i := None])"
proof (intro conjI impI)
  assume a: "v1 = v3 \<or>
    (flag AND VERT_RESTRICT_TAG A \<noteq> 0 \<and>
     BM_elem_flag_test_v m v1 (BM_ELEM_TAG A) = BM_elem_flag_test_v m v3 (BM_ELEM_TAG A))"
  then show "BM_verts_calc_rotate_beauty A m v1 v2 v3 v4 flag method = FLT_MAX"
    by (auto simp: BM_verts_calc_rotate_beauty_def)
  from a show "BM_verts_calc_rotate_beauty
        (A\<lparr>normal_tri_v3 := nf, angle_normalized_v3v3 := af,
           BLI_polyfill_edge_calc_rotate_beauty__area := pf\<rparr>)
        (m\<lparr>v_co := cf\<rparr>) v1 v2 v3 v4 flag method = FLT_MAX"
    by (auto simp: BM_verts_calc_rotate_beauty_def BM_elem_flag_test_v_def)
next
  show "0 \<le> FLT_MAX" by (rule FLT_MAX_nonneg)
next
  assume "let a = l_v (bm s) (l_prev (bm s) (e_l (bm s) e));
         b = l_v (bm s) (l_prev (bm s) (l_radial_next (bm s) (e_l (bm s) e)))
     in a = b \<or>
        (flag AND VERT_RESTRICT_TAG A \<noteq> 0 \<and>
         BM_elem_flag_test_v (bm s) a (BM_ELEM_TAG A) =
           BM_elem_flag_test_v (bm s) b (BM_ELEM_TAG A))"
  then have c: "bm_edge_calc_rotate_beauty A (bm s) e flag method = FLT_MAX"
    by (auto simp: bm_edge_calc_rotate_beauty_def BM_verts_calc_rotate_beauty_def Let_def)
  from c show "bm_edge_calc_rotate_beauty A (bm s) e flag method = FLT_MAX" .
  from recalculate_edge_sentinel[OF c]
  show "h_nodes (eheap (recalculate_edge A e i flag method s)) = h_nodes (eheap s)"
    and "eheap_table (recalculate_edge A e i flag method s) = (eheap_table s)[i := None]"
    by simp_all
qed

lemma quad_tags:
  "(1 :: 16 word) AND VERT_RESTRICT_TAG tri_api \<noteq> 0"
  "BM_elem_flag_test_v quad_mesh 0 (BM_ELEM_TAG tri_api) =
     BM_elem_flag_test_v quad_mesh 3 (BM_ELEM_TAG tri_api)"
  "l_v (bm quad_start) (l_prev (bm quad_start) (e_l (bm quad_start) 0)) = 0"
  "l_v (bm quad_start)
     (l_prev (bm quad_start) (l_radial_next (bm quad_start) (e_l (bm quad_start) 0))) = 3"
  "BM_elem_flag_test_v (bm quad_start) 0 (BM_ELEM_TAG tri_api) =
     BM_elem_flag_test_v (bm quad_start) 3 (BM_ELEM_TAG tri_api)"
  "h_nodes (eheap quad_start) = [(0, - 32, 0)]"
  "bm_edge_calc_rotate_beauty tri_api (bm quad_start) 0 0 0 = - 32"
  by (simp_all add: quad_start_def model_defs tri_defs quad_mesh_def Let_def)

theorem apex_short_circuit_witness:
  "BM_verts_calc_rotate_beauty tri_api quad_mesh 0 1 3 2 1 0 = FLT_MAX \<and>
   bm_edge_calc_rotate_beauty tri_api (bm quad_start) 0 1 0 = FLT_MAX \<and>
   bm_edge_calc_rotate_beauty tri_api (bm quad_start) 0 0 0 = - 32 \<and>
   h_nodes (eheap (recalculate_edge tri_api 0 0 1 0 quad_start)) = [(0, - 32, 0)]"
  using apex_short_circuit[where A = tri_api and m = quad_mesh and ?v1.0 = 0 and ?v2.0 = 1
      and ?v3.0 = 3 and ?v4.0 = 2 and flag = 1 and s = quad_start and e = 0 and i = 0, of 0]
  by (simp add: quad_tags Let_def)

subsection \<open>A second run\<close>

lemma beautify_loop_invariant:
  assumes "arrays_aligned s" and "P s"
    and pres: "\<And>t t'. P t \<Longrightarrow> arrays_aligned t \<Longrightarrow> \<not> BLI_heap_is_empty (eheap t) \<Longrightarrow>
                 beautify_step A flag method oflag_edge oflag_face t = Inr t' \<Longrightarrow> P t'"
  shows "\<exists>r. beautify_loop A flag method oflag_edge oflag_face s = Some r \<and>
             (\<forall>s'. r = Inr s' \<longrightarrow> P s' \<and> BLI_heap_is_empty (eheap s'))"
  using assms(1,2)
proof (induction s rule: wf_induct_rule[OF wf_inv_image[OF wf_lex_prod[OF wf_less_than wf_less_than]], of step_measure])
  case (1 s)
  show ?case
  proof (cases "BLI_heap_is_empty (eheap s)")
    case True
    with 1(3) show ?thesis by (subst beautify_loop.simps) simp
  next
    case False
    show ?thesis
    proof (cases "beautify_step A flag method oflag_edge oflag_face s")
      case (Inl err)
      with False show ?thesis by (subst beautify_loop.simps) simp
    next
      case (Inr s')
      from step_decreases[OF Inr 1(2)] have "(s', s) \<in> inv_image (less_than <*lex*> less_than) step_measure"
        by (simp add: inv_image_def)
      from 1(1)[OF this step_aligned[OF Inr 1(2)] pres[OF 1(3) 1(2) False Inr]]
      show ?thesis using False Inr by (subst beautify_loop.simps) simp
    qed
  qed
qed

lemma build_prefix_nodes:
  assumes "k \<le> length arr"
    and "s0 = \<lparr>bm = m, edge_array = arr, eheap = BLI_heap_new_ex (length arr),
                eheap_table = replicate (length arr) None,
                edge_state_arr = replicate (length arr) None, flips = []\<rparr>"
    and "s = fold (build_heap_step A flag method) [0..<k] s0"
  shows "list_all (\<lambda>x. snd (snd x) \<in> set arr \<and>
                    bm_edge_calc_rotate_beauty A m (snd (snd x)) flag method < 0)
           (h_nodes (eheap s))"
  using assms
proof (induction k arbitrary: s)
  case 0
  then show ?case by (simp add: BLI_heap_new_ex_def)
next
  case (Suc k)
  define t where "t = fold (build_heap_step A flag method) [0..<k] s0"
  from Suc.prems have s: "s = build_heap_step A flag method k t"
    by (simp add: t_def)
  from Suc.prems(1) have k: "k \<le> length arr" "k < length arr" by simp_all
  from build_prefix[OF k(1) Suc.prems(2) t_def]
  have iv: "index_variant (bm t) m" and ea: "edge_array t = arr" by blast+
  have c: "bm_edge_calc_rotate_beauty A (bm t) (arr ! k) flag method =
           bm_edge_calc_rotate_beauty A m (arr ! k) flag method"
    by (rule cost_index_variant[OF iv])
  have nodes: "h_nodes (eheap s) = h_nodes (eheap t) @
      (if bm_edge_calc_rotate_beauty A m (arr ! k) flag method < 0
       then [(h_next (eheap t), bm_edge_calc_rotate_beauty A m (arr ! k) flag method, arr ! k)]
       else [])"
    by (simp add: s build_heap_step_def Let_def recalculate_edge_nodes ea c)
  from Suc.IH[OF k(1) Suc.prems(2) t_def] k(2) show ?case
    by (simp add: nodes)
qed

lemma build_heap_no_flip: "no_flip_state A m arr flag method (build_heap A flag method m arr)"
proof -
  define s1 where "s1 = fold (build_heap_step A flag method) [0..<length arr]
        \<lparr>bm = m, edge_array = arr, eheap = BLI_heap_new_ex (length arr),
           eheap_table = replicate (length arr) None,
           edge_state_arr = replicate (length arr) None, flips = []\<rparr>"
  have b: "build_heap A flag method m arr =
             s1\<lparr>bm := (bm s1)\<lparr>elem_index_dirty := elem_index_dirty (bm s1) OR BM_EDGE A\<rparr>\<rparr>"
    by (simp add: build_heap_def Let_def s1_def)
  from build_prefix[OF le_refl refl s1_def] have "index_variant (bm s1) m" "edge_array s1 = arr"
    by blast+
  moreover have "flips s1 = []" by (simp add: s1_def build_fold_frame)
  moreover note build_prefix_nodes[OF le_refl refl s1_def]
  ultimately show ?thesis
    by (simp add: b no_flip_state_def index_variant_dirty)
qed

lemma step_no_flip:
  assumes H: "queued_edges_refused A m arr flag method"
    and J: "no_flip_state A m arr flag method s"
    and st: "beautify_step A flag method oflag_edge oflag_face s = Inr s'"
  shows "no_flip_state A m arr flag method s'"
proof -
  from st obtain h e where pop: "BLI_heap_pop_min (eheap s) = Some (h, e)"
    by (rule step_popE)
  from pop_min_node[OF pop] obtain n c where nd: "(n, c, e) \<in> set (h_nodes (eheap s))" by blast
  with J have e: "e \<in> set arr" "bm_edge_calc_rotate_beauty A m e flag method < 0"
    by (auto simp: no_flip_state_def list_all_iff)
  from J have iv: "index_variant (bm s) m" by (simp add: no_flip_state_def)
  from H e iv have rot: "BM_edge_rotate A (bm s) e = (bm s, None)"
    by (fastforce simp: queued_edges_refused_def)
  from pop obtain x where h: "h = BLI_heap_remove (eheap s) x"
    by (auto simp: BLI_heap_pop_min_def split: option.splits)
  from J have "list_all (\<lambda>x. snd (snd x) \<in> set arr \<and>
                    bm_edge_calc_rotate_beauty A m (snd (snd x)) flag method < 0) (h_nodes h)"
    by (simp add: no_flip_state_def h BLI_heap_remove_def list_all_iff)
  with step_refused[OF st pop rot] J show ?thesis
    by (simp add: no_flip_state_def)
qed

text \<open>
  C5, as amended: a call performs no rotation when every edge of the array either has a
  cost that is not negative or is refused by \<open>BM_edge_rotate\<close>, which then leaves the
  mesh as it is. The call returns, and when it returns normally the log of flips is
  empty, the array is unchanged and the mesh differs from the given one at most in the
  indices of the edges and the dirty flag.
\<close>

theorem no_flips_when_refused_or_nonnegative:
  assumes "queued_edges_refused A m arr flag method"
  shows "\<exists>r. BM_mesh_beautify_fill A m arr flag method oflag_edge oflag_face = Some r \<and>
             (\<forall>s. r = Inr s \<longrightarrow>
                flips s = [] \<and> edge_array s = arr \<and> index_variant (bm s) m)"
proof -
  have "\<exists>r. beautify_loop A flag method oflag_edge oflag_face (build_heap A flag method m arr)
               = Some r \<and>
             (\<forall>s'. r = Inr s' \<longrightarrow>
                no_flip_state A m arr flag method s' \<and> BLI_heap_is_empty (eheap s'))"
  proof (rule beautify_loop_invariant[where P = "no_flip_state A m arr flag method"])
    show "arrays_aligned (build_heap A flag method m arr)" by (rule build_heap_aligned)
    show "no_flip_state A m arr flag method (build_heap A flag method m arr)"
      by (rule build_heap_no_flip)
    show "\<And>t t'. no_flip_state A m arr flag method t \<Longrightarrow> arrays_aligned t \<Longrightarrow>
            \<not> BLI_heap_is_empty (eheap t) \<Longrightarrow>
            beautify_step A flag method oflag_edge oflag_face t = Inr t' \<Longrightarrow>
            no_flip_state A m arr flag method t'"
      by (rule step_no_flip[OF assms])
  qed
  then show ?thesis
    by (auto simp: BM_mesh_beautify_fill_def no_flip_state_def)
qed


lemma fan_single_refused: "queued_edges_refused tri_api fan_mesh [0] 0 0"
proof -
  have "\<And>m'. index_variant m' fan_mesh \<Longrightarrow> BM_edge_rotate tri_api m' 0 = (m', None)"
  proof -
    fix m' assume "index_variant m' fan_mesh"
    then obtain f d where "m' = fan_mesh\<lparr>e_index := f, elem_index_dirty := d\<rparr>"
      by (rule index_variantE)
    then show "BM_edge_rotate tri_api m' 0 = (m', None)"
      by (simp add: tri_defs fan_mesh_def Let_def)
  qed
  then show ?thesis by (simp add: queued_edges_refused_def)
qed

lemma fan_single_run:
  "map_option (map_sum id (\<lambda>s. h_nodes (eheap s)))
     (BM_mesh_beautify_fill tri_api fan_mesh [0] 0 0 0 0) = Some (Inr [])"
  "h_nodes (eheap (build_heap tri_api 0 0 fan_mesh [0])) = [(0, - 21, 0)]"
  by (simp_all add: BM_mesh_beautify_fill_def beautify_loop.simps model_defs tri_defs
        fan_mesh_def Let_def)

theorem no_flips_when_refused_or_nonnegative_witness:
  "h_nodes (eheap (build_heap tri_api 0 0 fan_mesh [0])) = [(0, - 21, 0)] \<and>
   map_option (map_sum id (\<lambda>s. (flips s, edge_array s)))
     (BM_mesh_beautify_fill tri_api fan_mesh [0] 0 0 0 0) = Some (Inr ([], [0]))"
proof -
  from no_flips_when_refused_or_nonnegative[OF fan_single_refused, of 0 0]
  obtain r where r: "BM_mesh_beautify_fill tri_api fan_mesh [0] 0 0 0 0 = Some r"
    and z: "\<forall>s. r = Inr s \<longrightarrow> flips s = [] \<and> edge_array s = [0]"
    by blast
  from fan_single_run(1) r obtain s where "r = Inr s" by (cases r) simp_all
  with r z fan_single_run(2) show ?thesis by simp
qed

text \<open>
  Idempotence as such (a second call never rotates) fails on the fan. Edge 0 has the
  lowest cost but its rotation would double the edge between the vertices 2 and 3, so the
  first call pops it, is refused and drops it; it then rotates edge 1, which removes the
  edge between 2 and 3. Edge 0 is not a neighbour of the rotated edge and is not looked
  at again. A second call on the mesh and the array of the first finds edge 0 with the
  same negative cost and rotates it.
\<close>

lemma fan_first_run:
  "map_option (map_sum id (\<lambda>s. (flips s, edge_array s)))
     (BM_mesh_beautify_fill tri_api fan_mesh [0, 1] 0 0 0 0) =
   Some (Inr ([(1, \<lparr>v_pair = (0, 4), f_pair = (2, 3)\<rparr>)], [0, 8]))"
  by (simp add: BM_mesh_beautify_fill_def beautify_loop.simps model_defs tri_defs
        fan_mesh_def Let_def)

lemma fan_first_eq: "BM_mesh_beautify_fill tri_api fan_mesh [0, 1] 0 0 0 0 = Some (Inr fan_first)"
proof -
  from fan_first_run obtain r where r: "BM_mesh_beautify_fill tri_api fan_mesh [0, 1] 0 0 0 0 = Some r"
    by (cases "BM_mesh_beautify_fill tri_api fan_mesh [0, 1] 0 0 0 0") simp_all
  with fan_first_run obtain s where "r = Inr s" by (cases r) simp_all
  with r show ?thesis by (simp add: fan_first_def)
qed

lemma fan_second_run:
  "map_option (map_sum id flips)
     (BM_mesh_beautify_fill tri_api (bm fan_first) (edge_array fan_first) 0 0 0 0) =
   Some (Inr [(0, \<lparr>v_pair = (2, 3), f_pair = (0, 1)\<rparr>)])"
  "bm_edge_calc_rotate_beauty tri_api (bm fan_first) 0 0 0 = - 21"
  by (simp_all add: fan_first_def BM_mesh_beautify_fill_def beautify_loop.simps model_defs tri_defs
        fan_mesh_def Let_def)

theorem beautify_twice_counterexample:
  "BM_mesh_beautify_fill tri_api fan_mesh [0, 1] 0 0 0 0 = Some (Inr fan_first) \<and>
   flips fan_first = [(1, \<lparr>v_pair = (0, 4), f_pair = (2, 3)\<rparr>)] \<and>
   edge_array fan_first = [0, 8] \<and>
   map_option (map_sum id flips)
     (BM_mesh_beautify_fill tri_api (bm fan_first) (edge_array fan_first) 0 0 0 0) =
   Some (Inr [(0, \<lparr>v_pair = (2, 3), f_pair = (0, 1)\<rparr>)])"
  using fan_first_run fan_first_eq fan_second_run(1) by simp

subsection \<open>Marks and edges the loop can handle\<close>

lemma marks_variantE:
  assumes "marks_variant m' m"
  obtains a b c d where
    "m' = m\<lparr>e_index := a, e_oflag := b, f_oflag := c, elem_index_dirty := d\<rparr>"
  using assms unfolding marks_variant_def by blast

lemma marks_variant_refl: "marks_variant m m"
  by (simp add: marks_variant_def)

lemma marks_variant_index_set: "marks_variant (BM_elem_index_set_e m e i) m"
  by (simp add: marks_variant_def BM_elem_index_set_e_def)

lemma marks_variant_trans:
  "marks_variant m'' m' \<Longrightarrow> marks_variant m' m \<Longrightarrow> marks_variant m'' m"
  by (elim marks_variantE) (simp add: marks_variant_def)

lemma marks_variant_flags:
  "marks_variant (BMO_edge_flag_enable m e f) m"
  "marks_variant (BMO_face_flag_enable m fc f) m"
  "marks_variant (m\<lparr>elem_index_dirty := d\<rparr>) m"
  by (simp_all add: marks_variant_def BMO_edge_flag_enable_def BMO_face_flag_enable_def)

lemma index_variant_marks: "index_variant m' m \<Longrightarrow> marks_variant m' m"
  by (erule index_variantE) (simp add: marks_variant_def)

lemma good_edge_marks:
  assumes "queries_ignore_marks A" "marks_variant m' m"
  shows "good_edge A m' e = good_edge A m e"
proof -
  from assms(2) obtain a b c d where
    m': "m' = m\<lparr>e_index := a, e_oflag := b, f_oflag := c, elem_index_dirty := d\<rparr>"
    by (rule marks_variantE)
  from assms have q: "\<And>e v n. BM_edge_is_manifold A m' e = BM_edge_is_manifold A m e \<and>
        BM_vert_in_edge A m' e v = BM_vert_in_edge A m e v \<and>
        BM_edge_face_count_is_equal A m' e n = BM_edge_face_count_is_equal A m e n"
    unfolding queries_ignore_marks_def by blast
  show ?thesis
    unfolding good_edge_def by (simp add: q) (simp add: m')
qed

lemma erot_state_ex_marks:
  assumes "queries_ignore_marks A" "marks_variant m' m"
  shows "erot_state_ex A m' e = erot_state_ex A m e"
proof -
  from assms(2) obtain a b c d where
    m': "m' = m\<lparr>e_index := a, e_oflag := b, f_oflag := c, elem_index_dirty := d\<rparr>"
    by (rule marks_variantE)
  from assms have q: "\<And>e v n. BM_edge_is_manifold A m' e = BM_edge_is_manifold A m e \<and>
        BM_vert_in_edge A m' e v = BM_vert_in_edge A m e v"
    unfolding queries_ignore_marks_def by blast
  show ?thesis
    unfolding erot_state_ex_def by (simp add: q) (simp add: m' BM_elem_index_get_v_def)
qed

lemma e_arr_marks: "marks_variant m' m \<Longrightarrow> e_arr m' e = e_arr m e"
  by (erule marks_variantE) (simp add: e_arr_def)

lemma good_edge_state:
  "good_edge A m e \<Longrightarrow> \<exists>vp fp. erot_state_ex A m e = Inr (vp, fp)"
  by (simp add: good_edge_def erot_state_ex_def Let_def)

lemma erot_state_current_ex:
  "erot_state_ex A m e = Inr (vp, fp) \<Longrightarrow>
   erot_state_current A m e = Inr \<lparr>v_pair = vp, f_pair = fp\<rparr> \<and>
   erot_state_alternate A m e = Inr \<lparr>v_pair = fp, f_pair = vp\<rparr>"
  by (simp add: erot_state_current_def erot_state_alternate_def)

lemma slots_ok_in_array:
  assumes "slots_ok A s"
  shows "edge_in_array (bm s) x (edge_array s) \<longleftrightarrow> x \<in> set (edge_array s)"
proof
  assume "edge_in_array (bm s) x (edge_array s)"
  then show "x \<in> set (edge_array s)"
    by (auto simp: edge_in_array_def Let_def BM_elem_index_get_e_def)
      (metis nat_less_iff nth_mem nat_int zless_nat_conj)
next
  assume "x \<in> set (edge_array s)"
  then obtain j where j: "j < length (edge_array s)" "edge_array s ! j = x"
    by (auto simp: in_set_conv_nth)
  with assms have "sint (e_index (bm s) x) = int j" by (auto simp: slots_ok_def)
  with j show "edge_in_array (bm s) x (edge_array s)"
    by (simp add: edge_in_array_def Let_def BM_elem_index_get_e_def)
qed

lemma slots_ok_slot:
  assumes "slots_ok A s" "j < length (edge_array s)"
  shows "nat (sint (BM_elem_index_get_e (bm s) (edge_array s ! j))) = j"
  using assms by (simp add: slots_ok_def BM_elem_index_get_e_def)

subsection \<open>Updating one edge keeps the invariant\<close>

lemma drop_stale_frame:
  "bm (drop_stale s j) = bm s"
  "edge_array (drop_stale s j) = edge_array s"
  "edge_state_arr (drop_stale s j) = edge_state_arr s"
  "flips (drop_stale s j) = flips s"
  "h_next (eheap (drop_stale s j)) = h_next (eheap s)"
  "h_nodes (eheap (drop_stale s j)) =
     filter (\<lambda>y. Some (fst y) \<noteq> eheap_table s ! j) (h_nodes (eheap s))"
  by (cases "eheap_table s ! j"; simp add: drop_stale_def BLI_heap_remove_def)+

lemma drop_stale_table:
  "j < length (eheap_table s) \<Longrightarrow> eheap_table (drop_stale s j) = (eheap_table s)[j := None]"
  by (cases "eheap_table s ! j") (simp_all add: drop_stale_def list_update_same_conv[THEN iffD2])

lemma single_unfold:
  assumes "edge_in_array (bm s) x (edge_array s)"
    and "j = nat (sint (BM_elem_index_get_e (bm s) x))"
  shows "bm_edge_update_beauty_cost_single A x flag method s =
     (if \<not> BM_edge_is_manifold A (bm s) x then Inl AssertionFailed
      else
        (case edge_state_arr s ! j of
           Some S \<Rightarrow>
             (case erot_state_alternate A (bm s) x of
                Inl err \<Rightarrow> Inl err
              | Inr e_state_alt \<Rightarrow>
                  if e_state_alt \<in> S then Inr (drop_stale s j)
                  else Inr (recalculate_edge A x j flag method (drop_stale s j)))
         | None \<Rightarrow> Inr (recalculate_edge A x j flag method (drop_stale s j))))"
  using assms(1) unfolding assms(2) drop_stale_def
  by (simp add: bm_edge_update_beauty_cost_single_def Let_def)

lemma node_ok_alt_free_cong:
  assumes "bm s' = bm s" "edge_array s' = edge_array s" "edge_state_arr s' = edge_state_arr s"
  shows "alt_free A s' j = alt_free A s j"
  by (simp add: alt_free_def assms)

text \<open>After the stale node of slot j is dropped, no node of the heap is for slot j.\<close>

lemma drop_stale_nodes_ok:
  assumes sl: "slots_ok A s" and nd: "nodes_ok A P s" and j: "j < length (edge_array s)"
  shows "nodes_ok A (P - {edge_array s ! j}) (drop_stale s j)"
    and "\<forall>y \<in> set (h_nodes (eheap (drop_stale s j))). snd (snd y) \<noteq> edge_array s ! j"
proof -
  let ?t = "drop_stale s j"
  from sl have al: "arrays_aligned s" and di: "distinct (edge_array s)"
    by (simp_all add: slots_ok_def)
  from al j have jt: "j < length (eheap_table s)" by (simp add: arrays_aligned_def)
  have other: "\<And>y. y \<in> set (h_nodes (eheap ?t)) \<Longrightarrow>
     y \<in> set (h_nodes (eheap s)) \<and> snd (snd y) \<noteq> edge_array s ! j \<and> node_ok A (P - {edge_array s ! j}) ?t y"
  proof -
    fix y assume y: "y \<in> set (h_nodes (eheap ?t))"
    then have y_in: "y \<in> set (h_nodes (eheap s))" and y_ne: "Some (fst y) \<noteq> eheap_table s ! j"
      by (simp_all add: drop_stale_frame)
    from nd y_in have "node_ok A P s y" by (simp add: nodes_ok_def list_all_iff)
    then have lt: "fst y < h_next (eheap s)"
      and ex: "\<exists>k < length (edge_array s). snd (snd y) = edge_array s ! k \<and>
                eheap_table s ! k = Some (fst y) \<and> (snd (snd y) \<notin> P \<longrightarrow> alt_free A s k)"
      by (simp_all add: node_ok_def)
    from ex obtain k where k: "k < length (edge_array s)" "snd (snd y) = edge_array s ! k"
      "eheap_table s ! k = Some (fst y)" "snd (snd y) \<notin> P \<longrightarrow> alt_free A s k"
      by blast
    from k(3) y_ne have kj: "k \<noteq> j" by auto
    with k(1,2) j di have ne: "snd (snd y) \<noteq> edge_array s ! j"
      by (simp add: nth_eq_iff_index_eq)
    have "node_ok A (P - {edge_array s ! j}) ?t y"
      unfolding node_ok_def
      using lt k kj ne jt
      by (auto simp: drop_stale_frame drop_stale_table node_ok_alt_free_cong[of ?t s] intro!: exI[of _ k])
    with y_in ne show "y \<in> set (h_nodes (eheap s)) \<and> snd (snd y) \<noteq> edge_array s ! j \<and>
        node_ok A (P - {edge_array s ! j}) ?t y" by blast
  qed
  from nd have "distinct (map fst (h_nodes (eheap ?t)))"
    by (simp add: nodes_ok_def drop_stale_frame distinct_map_filter)
  with other show "nodes_ok A (P - {edge_array s ! j}) ?t"
    by (simp add: nodes_ok_def list_all_iff)
  from other show "\<forall>y \<in> set (h_nodes (eheap ?t)). snd (snd y) \<noteq> edge_array s ! j" by blast
qed

lemma recalculate_edge_table:
  "eheap_table (recalculate_edge A x j flag method t) =
     (eheap_table t)[j := if bm_edge_calc_rotate_beauty A (bm t) x flag method < 0
                          then Some (h_next (eheap t)) else None]"
  "h_next (eheap (recalculate_edge A x j flag method t)) =
     (if bm_edge_calc_rotate_beauty A (bm t) x flag method < 0
      then Suc (h_next (eheap t)) else h_next (eheap t))"
  by (simp_all add: recalculate_edge_def Let_def BLI_heap_insert_def)

lemma recalculate_nodes_ok:
  assumes sl: "slots_ok A t" and nd: "nodes_ok A P t"
    and j: "j < length (edge_array t)"
    and none: "\<forall>y \<in> set (h_nodes (eheap t)). snd (snd y) \<noteq> edge_array t ! j"
    and af: "alt_free A t j"
  shows "nodes_ok A P (recalculate_edge A (edge_array t ! j) j flag method t)"
proof -
  define r where "r = recalculate_edge A (edge_array t ! j) j flag method t"
  define c where "c = bm_edge_calc_rotate_beauty A (bm t) (edge_array t ! j) flag method"
  from sl have al: "arrays_aligned t" by (simp add: slots_ok_def)
  with j have jt: "j < length (eheap_table t)" by (simp add: arrays_aligned_def)
  have fr: "bm r = bm t" "edge_array r = edge_array t" "edge_state_arr r = edge_state_arr t"
    by (simp_all add: r_def recalculate_edge_frame)
  have tab: "eheap_table r = (eheap_table t)[j := if c < 0 then Some (h_next (eheap t)) else None]"
    and nxt: "h_next (eheap r) = (if c < 0 then Suc (h_next (eheap t)) else h_next (eheap t))"
    and nds: "h_nodes (eheap r) = h_nodes (eheap t) @
                (if c < 0 then [(h_next (eheap t), c, edge_array t ! j)] else [])"
    by (simp_all add: r_def c_def recalculate_edge_table recalculate_edge_nodes)
  have afr: "\<And>k. alt_free A r k = alt_free A t k"
    by (rule node_ok_alt_free_cong) (simp_all add: fr)
  have old: "\<And>y. y \<in> set (h_nodes (eheap t)) \<Longrightarrow> node_ok A P r y \<and> fst y < h_next (eheap t)"
  proof -
    fix y assume y: "y \<in> set (h_nodes (eheap t))"
    with nd have "node_ok A P t y" by (simp add: nodes_ok_def list_all_iff)
    then have lt: "fst y < h_next (eheap t)"
      and ex: "\<exists>k < length (edge_array t). snd (snd y) = edge_array t ! k \<and>
                eheap_table t ! k = Some (fst y) \<and> (snd (snd y) \<notin> P \<longrightarrow> alt_free A t k)"
      by (simp_all add: node_ok_def)
    from ex obtain k where k: "k < length (edge_array t)" "snd (snd y) = edge_array t ! k"
      "eheap_table t ! k = Some (fst y)" "snd (snd y) \<notin> P \<longrightarrow> alt_free A t k"
      by blast
    from none y k(2) have kj: "k \<noteq> j" by auto
    from kj k(3) have t1: "eheap_table r ! k = Some (fst y)" by (simp add: tab)
    from lt have t2: "fst y < h_next (eheap r)" by (simp add: nxt)
    have "node_ok A P r y"
      unfolding node_ok_def fr afr using t1 t2 k by blast
    with lt show "node_ok A P r y \<and> fst y < h_next (eheap t)" by blast
  qed
  have "nodes_ok A P r"
  proof (cases "c < 0")
    case False
    then have "h_nodes (eheap r) = h_nodes (eheap t)" by (simp add: nds)
    with nd old show ?thesis by (simp add: nodes_ok_def list_all_iff)
  next
    case True
    then have n: "h_nodes (eheap r) = h_nodes (eheap t) @ [(h_next (eheap t), c, edge_array t ! j)]"
      by (simp add: nds)
    from True jt have t1: "eheap_table r ! j = Some (h_next (eheap t))" by (simp add: tab)
    from True have t2: "h_next (eheap t) < h_next (eheap r)" by (simp add: nxt)
    have new: "node_ok A P r (h_next (eheap t), c, edge_array t ! j)"
      unfolding node_ok_def fr afr using t1 t2 j af by auto
    from old have "h_next (eheap t) \<notin> fst ` set (h_nodes (eheap t))" by force
    with nd have "distinct (map fst (h_nodes (eheap r)))" by (simp add: n nodes_ok_def)
    with old new show ?thesis by (simp add: n nodes_ok_def list_all_iff)
  qed
  then show ?thesis by (simp add: r_def)
qed

lemma nodes_ok_mono:
  "nodes_ok A P s \<Longrightarrow> Q \<subseteq> P \<Longrightarrow> (\<forall>y \<in> set (h_nodes (eheap s)). snd (snd y) \<in> P \<longrightarrow> snd (snd y) \<in> Q) \<Longrightarrow> nodes_ok A Q s"
  unfolding nodes_ok_def node_ok_def list_all_iff by blast

lemma slots_ok_cong:
  assumes "bm s' = bm s" "edge_array s' = edge_array s"
    "length (eheap_table s') = length (eheap_table s)"
    "edge_state_arr s' = edge_state_arr s"
  shows "slots_ok A s' = slots_ok A s"
  by (simp add: slots_ok_def arrays_aligned_def assms)

lemma single_sound_outside:
  assumes sl: "slots_ok A s" and nd: "nodes_ok A P s" and out: "x \<notin> set (edge_array s)"
  shows "bm_edge_update_beauty_cost_single A x flag method s = Inr s \<and> nodes_ok A (P - {x}) s"
proof -
  from out slots_ok_in_array[OF sl] have "\<not> edge_in_array (bm s) x (edge_array s)" by simp
  then have r: "bm_edge_update_beauty_cost_single A x flag method s = Inr s"
    by (simp add: bm_edge_update_beauty_cost_single_def)
  have "\<And>y. y \<in> set (h_nodes (eheap s)) \<Longrightarrow> snd (snd y) \<noteq> x"
  proof -
    fix y assume "y \<in> set (h_nodes (eheap s))"
    with nd have "node_ok A P s y" by (simp add: nodes_ok_def list_all_iff)
    then obtain k where "k < length (edge_array s)" "snd (snd y) = edge_array s ! k"
      unfolding node_ok_def by blast
    with out show "snd (snd y) \<noteq> x" by (metis nth_mem)
  qed
  then have "nodes_ok A (P - {x}) s"
    by (intro nodes_ok_mono[OF nd]) auto
  with r show ?thesis by simp
qed

lemma single_sound_inside:
  assumes sl: "slots_ok A s" and nd: "nodes_ok A P s" and j: "j < length (edge_array s)"
  shows "\<exists>s'. bm_edge_update_beauty_cost_single A (edge_array s ! j) flag method s = Inr s' \<and>
              slots_ok A s' \<and> nodes_ok A (P - {edge_array s ! j}) s'"
proof -
  define x where "x = edge_array s ! j"
  define t where "t = drop_stale s j"
  have xin: "x \<in> set (edge_array s)" using j by (simp add: x_def)
  from slots_ok_slot[OF sl j] have jx: "j = nat (sint (BM_elem_index_get_e (bm s) x))"
    by (simp add: x_def)
  from xin slots_ok_in_array[OF sl] have ia: "edge_in_array (bm s) x (edge_array s)" by simp
  have u: "bm_edge_update_beauty_cost_single A x flag method s =
     (if \<not> BM_edge_is_manifold A (bm s) x then Inl AssertionFailed
      else
        (case edge_state_arr s ! j of
           Some S \<Rightarrow>
             (case erot_state_alternate A (bm s) x of
                Inl err \<Rightarrow> Inl err
              | Inr e_state_alt \<Rightarrow>
                  if e_state_alt \<in> S then Inr t
                  else Inr (recalculate_edge A x j flag method t))
         | None \<Rightarrow> Inr (recalculate_edge A x j flag method t)))"
    unfolding t_def by (rule single_unfold[OF ia jx])
  from sl j have good: "good_edge A (bm s) x" by (simp add: slots_ok_def x_def)
  then have man: "BM_edge_is_manifold A (bm s) x" by (simp add: good_edge_def)
  from good_edge_state[OF good] obtain vp fp where st: "erot_state_ex A (bm s) x = Inr (vp, fp)"
    by blast
  from erot_state_current_ex[OF st]
  have alt: "erot_state_alternate A (bm s) x = Inr \<lparr>v_pair = fp, f_pair = vp\<rparr>" by blast
  from sl j have jt: "j < length (eheap_table s)" by (simp add: slots_ok_def arrays_aligned_def)
  have tfr: "bm t = bm s" "edge_array t = edge_array s" "edge_state_arr t = edge_state_arr s"
    "length (eheap_table t) = length (eheap_table s)"
    by (simp_all add: t_def drop_stale_frame drop_stale_table jt)
  have slt: "slots_ok A t"
    using sl slots_ok_cong[OF tfr(1,2,4,3), of A] by simp
  from drop_stale_nodes_ok[OF sl nd j]
  have ndt: "nodes_ok A (P - {x}) t"
    and none: "\<forall>y \<in> set (h_nodes (eheap t)). snd (snd y) \<noteq> edge_array t ! j"
    by (simp_all add: t_def x_def drop_stale_frame)
  have rec: "alt_free A s j \<Longrightarrow>
        slots_ok A (recalculate_edge A x j flag method t) \<and>
        nodes_ok A (P - {x}) (recalculate_edge A x j flag method t)"
  proof -
    assume "alt_free A s j"
    then have af: "alt_free A t j"
      using node_ok_alt_free_cong[OF tfr(1,2,3), of A j] by simp
    from j have jt': "j < length (edge_array t)" by (simp add: tfr)
    have "nodes_ok A (P - {x}) (recalculate_edge A (edge_array t ! j) j flag method t)"
      by (rule recalculate_nodes_ok[OF slt ndt jt' none af])
    then have "nodes_ok A (P - {x}) (recalculate_edge A x j flag method t)"
      by (simp add: tfr x_def)
    moreover have "slots_ok A (recalculate_edge A x j flag method t)"
      using slt slots_ok_cong[of "recalculate_edge A x j flag method t" t A]
      by (simp add: recalculate_edge_frame)
    ultimately show ?thesis by blast
  qed
  have "\<exists>s'. bm_edge_update_beauty_cost_single A x flag method s = Inr s' \<and>
              slots_ok A s' \<and> nodes_ok A (P - {x}) s'"
  proof (cases "edge_state_arr s ! j")
    case None
    with st have "alt_free A s j" by (simp add: alt_free_def x_def)
    from rec[OF this] u man None show ?thesis by simp
  next
    case (Some S)
    show ?thesis
    proof (cases "\<lparr>v_pair = fp, f_pair = vp\<rparr> \<in> S")
      case True
      with u man Some alt slt ndt show ?thesis by simp
    next
      case False
      with st Some have "alt_free A s j" by (simp add: alt_free_def x_def)
      from rec[OF this] u man Some alt False show ?thesis by simp
    qed
  qed
  then show ?thesis by (simp add: x_def)
qed

lemma single_sound:
  assumes sl: "slots_ok A s" and nd: "nodes_ok A P s"
  shows "\<exists>s'. bm_edge_update_beauty_cost_single A x flag method s = Inr s' \<and>
              slots_ok A s' \<and> nodes_ok A (P - {x}) s'"
proof (cases "x \<in> set (edge_array s)")
  case False
  from single_sound_outside[OF sl nd False] sl show ?thesis by blast
next
  case True
  then obtain j where j: "j < length (edge_array s)" and x: "edge_array s ! j = x"
    by (auto simp: in_set_conv_nth)
  from single_sound_inside[OF sl nd j, of flag "method"] x show ?thesis by simp
qed

lemma loop_sound:
  "slots_ok A s \<Longrightarrow> nodes_ok A P s \<Longrightarrow>
   \<exists>s'. bm_edge_update_beauty_cost_loop A es flag method s = Inr s' \<and>
        slots_ok A s' \<and> nodes_ok A (P - set es) s'"
proof (induction es arbitrary: s P)
  case Nil
  then show ?case by simp
next
  case (Cons x es)
  from single_sound[OF Cons.prems, of x flag "method"] obtain s1 where
    a: "bm_edge_update_beauty_cost_single A x flag method s = Inr s1"
    and b: "slots_ok A s1" "nodes_ok A (P - {x}) s1"
    by blast
  from Cons.IH[OF b] obtain s' where
    "bm_edge_update_beauty_cost_loop A es flag method s1 = Inr s'"
    "slots_ok A s'" "nodes_ok A (P - {x} - set es) s'"
    by blast
  moreover have "P - {x} - set es = P - set (x # es)" by auto
  ultimately show ?case using a by simp
qed

subsection \<open>Updating the neighbours keeps the invariant\<close>

lemma update_cost_unfold:
  "bm_edge_update_beauty_cost A e flag method s =
     (if \<not> (f_len (bm s) (l_f (bm s) (e_l (bm s) e)) = 3 \<and>
             f_len (bm s) (l_f (bm s) (l_radial_next (bm s) (e_l (bm s) e))) = 3)
      then Inl AssertionFailed
      else if \<not> BM_edge_face_count_is_equal A (bm s) e 2 then Inl AssertionFailed
      else bm_edge_update_beauty_cost_loop A (e_arr (bm s) e) flag method s)"
  unfolding bm_edge_update_beauty_cost_def e_arr_def Let_def by (rule refl)

lemma update_cost_sound:
  assumes sl: "slots_ok A s" and nd: "nodes_ok A (set (e_arr (bm s) e)) s"
    and good: "good_edge A (bm s) e"
  shows "\<exists>s'. bm_edge_update_beauty_cost A e flag method s = Inr s' \<and>
              slots_ok A s' \<and> nodes_ok A {} s'"
proof -
  from loop_sound[OF sl nd, of "e_arr (bm s) e" flag "method"] obtain s' where
    "bm_edge_update_beauty_cost_loop A (e_arr (bm s) e) flag method s = Inr s'"
    "slots_ok A s'" "nodes_ok A {} s'"
    by auto
  with good show ?thesis
    by (simp add: update_cost_unfold good_edge_def)
qed

lemma marks_state_sound:
  assumes qm: "queries_ignore_marks A"
    and sl: "slots_ok A s" and nd: "nodes_ok A P s"
    and mv: "marks_variant m4 (bm s)" and ix: "e_index m4 = e_index (bm s)"
  shows "slots_ok A (s\<lparr>bm := m4\<rparr>) \<and> nodes_ok A P (s\<lparr>bm := m4\<rparr>)"
proof -
  have g: "\<And>x. good_edge A m4 x = good_edge A (bm s) x"
    by (rule good_edge_marks[OF qm mv])
  have st: "\<And>x. erot_state_ex A m4 x = erot_state_ex A (bm s) x"
    by (rule erot_state_ex_marks[OF qm mv])
  from sl have "slots_ok A (s\<lparr>bm := m4\<rparr>)"
    by (simp add: slots_ok_def arrays_aligned_def g ix)
  moreover have "\<And>k. alt_free A (s\<lparr>bm := m4\<rparr>) k = alt_free A s k"
    by (simp add: alt_free_def st)
  then have "\<And>y. node_ok A P (s\<lparr>bm := m4\<rparr>) y = node_ok A P s y"
    by (simp add: node_ok_def)
  with nd have "nodes_ok A P (s\<lparr>bm := m4\<rparr>)"
    by (simp add: nodes_ok_def list_all_iff)
  ultimately show ?thesis by blast
qed

lemma pop_min_slot:
  assumes sl: "slots_ok A s" and nd: "nodes_ok A {} s"
    and pop: "BLI_heap_pop_min (eheap s) = Some (h, e)"
  shows "\<exists>j. j < length (edge_array s) \<and> edge_array s ! j = e \<and>
             sint (BM_elem_index_get_e (bm s) e) = int j \<and>
             s\<lparr>eheap := h, eheap_table := (eheap_table s)[j := None]\<rparr> = drop_stale s j \<and>
             alt_free A s j \<and> good_edge A (bm s) e"
proof -
  from pop obtain y where top: "heap_top (h_nodes (eheap s)) = Some y"
    and h: "h = BLI_heap_remove (eheap s) (fst y)" and e: "e = snd (snd y)"
    by (auto simp: BLI_heap_pop_min_def split: option.splits)
  from heap_top_mem[OF top] nd have "node_ok A {} s y"
    by (simp add: nodes_ok_def list_all_iff)
  then obtain j where j: "j < length (edge_array s)" "snd (snd y) = edge_array s ! j"
    "eheap_table s ! j = Some (fst y)" "alt_free A s j"
    unfolding node_ok_def by blast
  from sl j(1) have g: "good_edge A (bm s) (edge_array s ! j)"
    and ix: "sint (e_index (bm s) (edge_array s ! j)) = int j"
    by (simp_all add: slots_ok_def)
  have "s\<lparr>eheap := h, eheap_table := (eheap_table s)[j := None]\<rparr> = drop_stale s j"
    by (simp add: drop_stale_def j(3) h)
  with j e g ix show ?thesis
    by (auto simp: BM_elem_index_get_e_def intro!: exI[of _ j])
qed

lemma drop_stale_length: "length (eheap_table (drop_stale s j)) = length (eheap_table s)"
  by (cases "eheap_table s ! j") (simp_all add: drop_stale_def)

lemma flip_state_sound:
  assumes qm: "queries_ignore_marks A"
    and sl: "slots_ok A s" and j: "j < length (edge_array s)"
    and iw: "sint iw = int j"
    and t: "s\<lparr>eheap := h, eheap_table := (eheap_table s)[j := None]\<rparr> = drop_stale s j"
    and ndt: "nodes_ok A {} (drop_stale s j)"
    and none: "\<forall>y \<in> set (h_nodes (eheap (drop_stale s j))). snd (snd y) \<noteq> edge_array s ! j"
    and g: "good_edge A m' e'"
    and fr: "\<forall>x \<in> set (edge_array s). x \<noteq> edge_array s ! j \<longrightarrow>
               x \<noteq> e' \<and> e_index m' x = e_index (bm s) x \<and> good_edge A m' x \<and>
               (x \<notin> set (e_arr m' e') \<longrightarrow> erot_state_ex A m' x = erot_state_ex A (bm s) x)"
    and f: "f = flip_state s h iw m' e' e_state"
  shows "slots_ok A f \<and> nodes_ok A (set (e_arr (bm f) e')) f \<and> good_edge A (bm f) e'"
proof -
  from iw have nj: "nat (sint iw) = j" by simp
  have mv: "marks_variant (BM_elem_index_set_e m' e' iw) m'"
    by (rule marks_variant_index_set)
  have fb: "bm f = BM_elem_index_set_e m' e' iw"
    and fa: "edge_array f = (edge_array s)[j := e']"
    and fs: "edge_state_arr f = (edge_state_arr s)
               [j := Some (insert e_state (slot_set (edge_state_arr s ! j)))]"
    by (simp_all add: f flip_state_def nj)
  have "eheap f = eheap (s\<lparr>eheap := h, eheap_table := (eheap_table s)[j := None]\<rparr>)"
    "eheap_table f = eheap_table (s\<lparr>eheap := h, eheap_table := (eheap_table s)[j := None]\<rparr>)"
    by (simp_all add: f flip_state_def nj)
  then have fh: "eheap f = eheap (drop_stale s j)"
    and ft: "eheap_table f = eheap_table (drop_stale s j)"
    by (simp_all only: t)
  from sl have al: "arrays_aligned s" and di: "distinct (edge_array s)"
    and sg: "\<And>k. k < length (edge_array s) \<Longrightarrow>
               good_edge A (bm s) (edge_array s ! k) \<and> sint (e_index (bm s) (edge_array s ! k)) = int k"
    by (simp_all add: slots_ok_def)
  from al j have jt: "j < length (eheap_table s)" by (simp add: arrays_aligned_def)
  have gm: "\<And>x. good_edge A (bm f) x = good_edge A m' x"
    unfolding fb by (rule good_edge_marks[OF qm mv])
  have sm: "\<And>x. erot_state_ex A (bm f) x = erot_state_ex A m' x"
    unfolding fb by (rule erot_state_ex_marks[OF qm mv])
  have ea: "e_arr (bm f) e' = e_arr m' e'"
    unfolding fb by (rule e_arr_marks[OF mv])
  have other: "\<And>k. k < length (edge_array s) \<Longrightarrow> k \<noteq> j \<Longrightarrow>
     edge_array s ! k \<noteq> e' \<and> e_index m' (edge_array s ! k) = e_index (bm s) (edge_array s ! k) \<and>
     good_edge A m' (edge_array s ! k) \<and>
     (edge_array s ! k \<notin> set (e_arr m' e') \<longrightarrow>
        erot_state_ex A m' (edge_array s ! k) = erot_state_ex A (bm s) (edge_array s ! k))"
  proof -
    fix k assume k: "k < length (edge_array s)" "k \<noteq> j"
    with di j have "edge_array s ! k \<noteq> edge_array s ! j" by (simp add: nth_eq_iff_index_eq)
    moreover from k have "edge_array s ! k \<in> set (edge_array s)" by simp
    ultimately show "edge_array s ! k \<noteq> e' \<and>
       e_index m' (edge_array s ! k) = e_index (bm s) (edge_array s ! k) \<and>
       good_edge A m' (edge_array s ! k) \<and>
       (edge_array s ! k \<notin> set (e_arr m' e') \<longrightarrow>
          erot_state_ex A m' (edge_array s ! k) = erot_state_ex A (bm s) (edge_array s ! k))"
      using fr by blast
  qed
  have "e' \<notin> set (edge_array s) - {edge_array s ! j}"
    using fr by blast
  with di have d': "distinct (edge_array f)"
    unfolding fa by (rule distinct_list_update)
  have al': "arrays_aligned f"
    using al by (simp add: arrays_aligned_def fa fs ft drop_stale_length)
  have slot': "\<And>k. k < length (edge_array f) \<Longrightarrow>
     good_edge A (bm f) (edge_array f ! k) \<and> sint (e_index (bm f) (edge_array f ! k)) = int k"
  proof -
    fix k assume "k < length (edge_array f)"
    then have k: "k < length (edge_array s)" by (simp add: fa)
    show "good_edge A (bm f) (edge_array f ! k) \<and> sint (e_index (bm f) (edge_array f ! k)) = int k"
    proof (cases "k = j")
      case True
      with j g iw show ?thesis
        by (simp add: gm fa) (simp add: fb BM_elem_index_set_e_def)
    next
      case False
      from other[OF k False] sg[OF k] False k show ?thesis
        by (simp add: gm fa) (simp add: fb BM_elem_index_set_e_def)
    qed
  qed
  from al' d' slot' have sl': "slots_ok A f" by (simp add: slots_ok_def)
  have nd': "nodes_ok A (set (e_arr (bm f) e')) f"
  proof -
    have "\<And>y. y \<in> set (h_nodes (eheap (drop_stale s j))) \<Longrightarrow> node_ok A (set (e_arr m' e')) f y"
    proof -
      fix y assume y: "y \<in> set (h_nodes (eheap (drop_stale s j)))"
      with ndt have "node_ok A {} (drop_stale s j) y" by (simp add: nodes_ok_def list_all_iff)
      then have lt: "fst y < h_next (eheap (drop_stale s j))"
        and ex: "\<exists>k < length (edge_array s). snd (snd y) = edge_array s ! k \<and>
                  eheap_table (drop_stale s j) ! k = Some (fst y) \<and> alt_free A (drop_stale s j) k"
        by (simp_all add: node_ok_def drop_stale_frame)
      from ex obtain k where k: "k < length (edge_array s)" "snd (snd y) = edge_array s ! k"
        "eheap_table (drop_stale s j) ! k = Some (fst y)" "alt_free A (drop_stale s j) k"
        by blast
      from none y k(2) have kj: "k \<noteq> j" by auto
      from k(4) have af: "alt_free A s k"
        by (simp add: node_ok_alt_free_cong[of "drop_stale s j" s] drop_stale_frame)
      note o = other[OF k(1) kj]
      have "snd (snd y) \<notin> set (e_arr m' e') \<Longrightarrow> alt_free A f k"
      proof -
        assume "snd (snd y) \<notin> set (e_arr m' e')"
        with o k(2) have "erot_state_ex A m' (edge_array s ! k) = erot_state_ex A (bm s) (edge_array s ! k)"
          by simp
        with af kj show "alt_free A f k"
          by (simp add: alt_free_def sm fa fs)
      qed
      with lt k kj show "node_ok A (set (e_arr m' e')) f y"
        unfolding node_ok_def by (auto simp: fh ft fa intro!: exI[of _ k])
    qed
    moreover from ndt have "distinct (map fst (h_nodes (eheap (drop_stale s j))))"
      by (simp add: nodes_ok_def)
    ultimately show ?thesis by (simp add: nodes_ok_def list_all_iff fh ea)
  qed
  from g have "good_edge A (bm f) e'" by (simp add: gm)
  with sl' nd' show ?thesis by blast
qed

subsection \<open>A pass of the loop keeps the invariant\<close>

lemma apply_oflags_marks:
  "marks_variant (apply_oflags m e' oe ofc) m"
  "e_index (apply_oflags m e' oe ofc) = e_index m"
  by (simp_all add: apply_oflags_def Let_def marks_variant_def BMO_edge_flag_enable_def
        BMO_face_flag_enable_def)

lemma step_unfold_refused:
  assumes "BLI_heap_pop_min (eheap s) = Some (h, e)"
    and "sint (BM_elem_index_get_e (bm s) e) = int j" "j < length (edge_array s)"
    and "BM_edge_face_count_is_equal A (bm s) e 2"
    and "BM_edge_rotate A (bm s) e = (m', None)"
  shows "beautify_step A flag method oflag_edge oflag_face s =
           Inr (s\<lparr>eheap := h, eheap_table := (eheap_table s)[j := None], bm := m'\<rparr>)"
  using assms by (simp add: beautify_step_def Let_def)

lemma step_unfold_flipped:
  assumes "BLI_heap_pop_min (eheap s) = Some (h, e)"
    and "sint (BM_elem_index_get_e (bm s) e) = int j" "j < length (edge_array s)"
    and "BM_edge_face_count_is_equal A (bm s) e 2"
    and "BM_edge_rotate A (bm s) e = (m', Some e')"
    and "BM_edge_face_count_is_equal A m' e' 2"
    and "erot_state_current A m' e' = Inr e_state"
    and "e_state \<notin> slot_set (edge_state_arr s ! j)"
    and "bm_edge_update_beauty_cost A e' flag method
           (flip_state s h (BM_elem_index_get_e (bm s) e) m' e' e_state) = Inr s3"
  shows "beautify_step A flag method oflag_edge oflag_face s =
           Inr (s3\<lparr>bm := apply_oflags (bm s3) e' oflag_edge oflag_face\<rparr>)"
  using assms unfolding beautify_step_def flip_state_def apply_oflags_def
  by (simp add: Let_def)

lemma step_sound:
  assumes qm: "queries_ignore_marks A"
    and sl: "slots_ok A s" and nd: "nodes_ok A {} s"
    and pop: "BLI_heap_pop_min (eheap s) = Some (h, e)"
    and conf: "rotation_conforms A (bm s) e (edge_array s)"
  shows "\<exists>s'. beautify_step A flag method oflag_edge oflag_face s = Inr s' \<and>
              slots_ok A s' \<and> nodes_ok A {} s'"
proof -
  from pop_min_slot[OF sl nd pop] obtain j where j: "j < length (edge_array s)"
    and ej: "edge_array s ! j = e"
    and ix: "sint (BM_elem_index_get_e (bm s) e) = int j"
    and t: "s\<lparr>eheap := h, eheap_table := (eheap_table s)[j := None]\<rparr> = drop_stale s j"
    and af: "alt_free A s j" and good: "good_edge A (bm s) e"
    by blast
  from good have fc: "BM_edge_face_count_is_equal A (bm s) e 2" by (simp add: good_edge_def)
  from drop_stale_nodes_ok[OF sl nd j]
  have ndt: "nodes_ok A {} (drop_stale s j)"
    and none: "\<forall>y \<in> set (h_nodes (eheap (drop_stale s j))). snd (snd y) \<noteq> edge_array s ! j"
    by simp_all
  from sl j have jt: "j < length (eheap_table s)" by (simp add: slots_ok_def arrays_aligned_def)
  have slt: "slots_ok A (drop_stale s j)"
    using sl slots_ok_cong[of "drop_stale s j" s A]
    by (simp add: drop_stale_frame drop_stale_length)
  obtain m' eo where rot: "BM_edge_rotate A (bm s) e = (m', eo)" by force
  show ?thesis
  proof (cases eo)
    case None
    from conf[unfolded rotation_conforms_def rot None prod.case option.case]
    have m': "m' = bm s" .
    have "s\<lparr>eheap := h, eheap_table := (eheap_table s)[j := None], bm := m'\<rparr> = drop_stale s j"
      using t by (simp add: m'[symmetric]) (metis beautify_state.surjective
          beautify_state.update_convs(1) beautify_state.select_convs(1) drop_stale_frame(1) m')
    with step_unfold_refused[OF pop ix j fc, of m'] rot None slt ndt show ?thesis by simp
  next
    case (Some e')
    note c = conf[unfolded rotation_conforms_def rot Some prod.case option.case]
    from c have g: "good_edge A m' e'" by (rule conjunct1)
    from c have sw: "\<And>vp fp. erot_state_ex A (bm s) e = Inr (vp, fp) \<Longrightarrow>
                 erot_state_ex A m' e' = Inr (fp, vp)"
      by blast
    from c have fr: "\<forall>x \<in> set (edge_array s). x \<noteq> e \<longrightarrow>
               x \<noteq> e' \<and> e_index m' x = e_index (bm s) x \<and> good_edge A m' x \<and>
               (x \<notin> set (e_arr m' e') \<longrightarrow> erot_state_ex A m' x = erot_state_ex A (bm s) x)"
      by blast
    from af ej obtain vp fp where st: "erot_state_ex A (bm s) e = Inr (vp, fp)"
      and fresh: "\<lparr>v_pair = fp, f_pair = vp\<rparr> \<notin> slot_set (edge_state_arr s ! j)"
      by (auto simp: alt_free_def)
    from erot_state_current_ex[OF sw[OF st]]
    have cur: "erot_state_current A m' e' = Inr \<lparr>v_pair = fp, f_pair = vp\<rparr>" by blast
    define f where "f = flip_state s h (BM_elem_index_get_e (bm s) e) m' e' \<lparr>v_pair = fp, f_pair = vp\<rparr>"
    from fr ej have fr': "\<forall>x \<in> set (edge_array s). x \<noteq> edge_array s ! j \<longrightarrow>
               x \<noteq> e' \<and> e_index m' x = e_index (bm s) x \<and> good_edge A m' x \<and>
               (x \<notin> set (e_arr m' e') \<longrightarrow> erot_state_ex A m' x = erot_state_ex A (bm s) x)"
      by simp
    from flip_state_sound[OF qm sl j ix t ndt none g fr' f_def]
    have fsl: "slots_ok A f" and fnd: "nodes_ok A (set (e_arr (bm f) e')) f"
      and fg: "good_edge A (bm f) e'"
      by blast+
    from update_cost_sound[OF fsl fnd fg, of flag "method"] obtain s3 where
      up: "bm_edge_update_beauty_cost A e' flag method f = Inr s3"
      and s3: "slots_ok A s3" "nodes_ok A {} s3"
      by blast
    from g have fc': "BM_edge_face_count_is_equal A m' e' 2" by (simp add: good_edge_def)
    from rot Some have rot': "BM_edge_rotate A (bm s) e = (m', Some e')" by simp
    from step_unfold_flipped[OF pop ix j fc rot' fc' cur fresh up[unfolded f_def]]
    have "beautify_step A flag method oflag_edge oflag_face s =
            Inr (s3\<lparr>bm := apply_oflags (bm s3) e' oflag_edge oflag_face\<rparr>)" .
    with marks_state_sound[OF qm s3 apply_oflags_marks] show ?thesis by blast
  qed
qed

subsection \<open>Building the heap establishes the invariant\<close>

lemma sint_of_nat_small: "n < 2 ^ 31 \<Longrightarrow> sint (of_nat n :: 32 word) = int n"
  by (simp add: signed_of_nat signed_take_bit_int_eq_self)

lemma build_prefix_queue:
  assumes "k \<le> length arr" and di: "distinct arr"
    and "s0 = \<lparr>bm = m, edge_array = arr, eheap = BLI_heap_new_ex (length arr),
                eheap_table = replicate (length arr) None,
                edge_state_arr = replicate (length arr) None, flips = []\<rparr>"
    and "s = fold (build_heap_step A flag method) [0..<k] s0"
  shows "(\<forall>i<k. e_index (bm s) (arr ! i) = of_nat i) \<and>
         distinct (map fst (h_nodes (eheap s))) \<and>
         (\<forall>y \<in> set (h_nodes (eheap s)). fst y < h_next (eheap s) \<and>
            (\<exists>i<k. snd (snd y) = arr ! i \<and> eheap_table s ! i = Some (fst y)))"
  using assms(1,3,4)
proof (induction k arbitrary: s)
  case 0
  then show ?case by (simp add: BLI_heap_new_ex_def)
next
  case (Suc k)
  define t where "t = fold (build_heap_step A flag method) [0..<k] s0"
  define c where "c = bm_edge_calc_rotate_beauty A (bm t) (arr ! k) flag method"
  from Suc.prems have s: "s = build_heap_step A flag method k t"
    by (simp add: t_def)
  from Suc.prems(1) have k: "k \<le> length arr" "k < length arr" by simp_all
  from build_prefix[OF k(1) Suc.prems(2) t_def]
  have ea: "edge_array t = arr" and len: "length (eheap_table t) = length arr" by blast+
  from Suc.IH[OF k(1) Suc.prems(2) t_def]
  have ix: "\<And>i. i < k \<Longrightarrow> e_index (bm t) (arr ! i) = of_nat i"
    and dn: "distinct (map fst (h_nodes (eheap t)))"
    and old: "\<And>y. y \<in> set (h_nodes (eheap t)) \<Longrightarrow> fst y < h_next (eheap t) \<and>
            (\<exists>i<k. snd (snd y) = arr ! i \<and> eheap_table t ! i = Some (fst y))"
    by blast+
  have bm_s: "bm s = BM_elem_index_set_e (bm t) (arr ! k) (of_nat k)"
    by (simp add: s build_heap_step_def Let_def recalculate_edge_frame ea)
  have nodes: "h_nodes (eheap s) = h_nodes (eheap t) @
      (if c < 0 then [(h_next (eheap t), c, arr ! k)] else [])"
    by (simp add: s build_heap_step_def Let_def recalculate_edge_nodes ea c_def)
  have tab: "eheap_table s = (eheap_table t)[k := if c < 0 then Some (h_next (eheap t)) else None]"
    and nxt: "h_next (eheap s) = (if c < 0 then Suc (h_next (eheap t)) else h_next (eheap t))"
    by (simp_all add: s build_heap_step_def Let_def recalculate_edge_table ea c_def)
  have ix': "\<And>i. i < Suc k \<Longrightarrow> e_index (bm s) (arr ! i) = of_nat i"
  proof -
    fix i assume i: "i < Suc k"
    show "e_index (bm s) (arr ! i) = of_nat i"
    proof (cases "i = k")
      case True
      then show ?thesis by (simp add: bm_s BM_elem_index_set_e_def)
    next
      case False
      with i have ik: "i < k" by simp
      with k di False have "arr ! i \<noteq> arr ! k" by (simp add: nth_eq_iff_index_eq)
      with ix[OF ik] show ?thesis by (simp add: bm_s BM_elem_index_set_e_def)
    qed
  qed
  have old': "\<And>y. y \<in> set (h_nodes (eheap t)) \<Longrightarrow> fst y < h_next (eheap s) \<and>
            (\<exists>i<Suc k. snd (snd y) = arr ! i \<and> eheap_table s ! i = Some (fst y))"
  proof -
    fix y assume "y \<in> set (h_nodes (eheap t))"
    from old[OF this] obtain i where lt: "fst y < h_next (eheap t)" and i: "i < k"
      "snd (snd y) = arr ! i" "eheap_table t ! i = Some (fst y)"
      by blast
    from i(1,3) have "eheap_table s ! i = Some (fst y)" by (simp add: tab)
    moreover from lt have "fst y < h_next (eheap s)" by (simp add: nxt)
    ultimately show "fst y < h_next (eheap s) \<and>
            (\<exists>i<Suc k. snd (snd y) = arr ! i \<and> eheap_table s ! i = Some (fst y))"
      using i(1,2) less_SucI by blast
  qed
  have new: "c < 0 \<Longrightarrow> h_next (eheap t) < h_next (eheap s) \<and> eheap_table s ! k = Some (h_next (eheap t))"
    using k(2) len by (simp add: tab nxt)
  from old have "h_next (eheap t) \<notin> fst ` set (h_nodes (eheap t))" by force
  with dn have dn': "distinct (map fst (h_nodes (eheap s)))" by (simp add: nodes)
  have "\<And>y. y \<in> set (h_nodes (eheap s)) \<Longrightarrow> fst y < h_next (eheap s) \<and>
            (\<exists>i<Suc k. snd (snd y) = arr ! i \<and> eheap_table s ! i = Some (fst y))"
  proof -
    fix y assume "y \<in> set (h_nodes (eheap s))"
    then have "y \<in> set (h_nodes (eheap t)) \<or> (c < 0 \<and> y = (h_next (eheap t), c, arr ! k))"
      by (auto simp: nodes split: if_splits)
    then show "fst y < h_next (eheap s) \<and>
            (\<exists>i<Suc k. snd (snd y) = arr ! i \<and> eheap_table s ! i = Some (fst y))"
    proof
      assume "y \<in> set (h_nodes (eheap t))"
      then show ?thesis by (rule old')
    next
      assume "c < 0 \<and> y = (h_next (eheap t), c, arr ! k)"
      with new show ?thesis by auto
    qed
  qed
  with ix' dn' show ?case by blast
qed

lemma build_heap_sound:
  assumes qm: "queries_ignore_marks A" and ok: "candidates_ok A m arr"
  shows "slots_ok A (build_heap A flag method m arr) \<and> nodes_ok A {} (build_heap A flag method m arr)"
proof -
  define s1 where "s1 = fold (build_heap_step A flag method) [0..<length arr]
        \<lparr>bm = m, edge_array = arr, eheap = BLI_heap_new_ex (length arr),
           eheap_table = replicate (length arr) None,
           edge_state_arr = replicate (length arr) None, flips = []\<rparr>"
  define b where "b = build_heap A flag method m arr"
  have b: "b = s1\<lparr>bm := (bm s1)\<lparr>elem_index_dirty := elem_index_dirty (bm s1) OR BM_EDGE A\<rparr>\<rparr>"
    by (simp add: b_def build_heap_def Let_def s1_def)
  from ok have di: "distinct arr" and small: "length arr < 2 ^ 31"
    and good: "\<And>i. i < length arr \<Longrightarrow> good_edge A m (arr ! i)"
    by (simp_all add: candidates_ok_def list_all_length)
  from build_prefix[OF le_refl refl s1_def]
  have iv: "index_variant (bm s1) m" and ea: "edge_array s1 = arr"
    and len: "length (eheap_table s1) = length arr"
    by blast+
  have sets: "edge_state_arr s1 = replicate (length arr) None"
    by (simp add: s1_def build_fold_frame)
  from build_prefix_queue[OF le_refl di refl s1_def]
  have ix: "\<And>i. i < length arr \<Longrightarrow> e_index (bm s1) (arr ! i) = of_nat i"
    and dn: "distinct (map fst (h_nodes (eheap s1)))"
    and nds: "\<And>y. y \<in> set (h_nodes (eheap s1)) \<Longrightarrow> fst y < h_next (eheap s1) \<and>
            (\<exists>i<length arr. snd (snd y) = arr ! i \<and> eheap_table s1 ! i = Some (fst y))"
    by blast+
  have mv: "marks_variant (bm b) m"
    unfolding b using index_variant_marks[OF index_variant_dirty[OF iv]] by simp
  have g: "\<And>x. good_edge A (bm b) x = good_edge A m x"
    by (rule good_edge_marks[OF qm mv])
  have st: "\<And>x. erot_state_ex A (bm b) x = erot_state_ex A m x"
    by (rule erot_state_ex_marks[OF qm mv])
  have fr: "edge_array b = arr" "eheap b = eheap s1" "eheap_table b = eheap_table s1"
    "edge_state_arr b = replicate (length arr) None" "e_index (bm b) = e_index (bm s1)"
    by (simp_all add: b ea sets)
  have slot: "\<And>j. j < length arr \<Longrightarrow>
     good_edge A (bm b) (arr ! j) \<and> sint (e_index (bm b) (arr ! j)) = int j"
  proof -
    fix j assume j: "j < length arr"
    with small have "j < 2 ^ 31" by simp
    with good[OF j] ix[OF j] show "good_edge A (bm b) (arr ! j) \<and> sint (e_index (bm b) (arr ! j)) = int j"
      by (simp add: g fr sint_of_nat_small)
  qed
  with di len have sl: "slots_ok A b"
    by (simp add: slots_ok_def arrays_aligned_def fr)
  have af: "\<And>j. j < length arr \<Longrightarrow> alt_free A b j"
  proof -
    fix j assume j: "j < length arr"
    from good_edge_state[OF good[OF j]] show "alt_free A b j"
      by (auto simp: alt_free_def fr st j)
  qed
  have "\<And>y. y \<in> set (h_nodes (eheap s1)) \<Longrightarrow> node_ok A {} b y"
  proof -
    fix y assume "y \<in> set (h_nodes (eheap s1))"
    from nds[OF this] obtain i where "fst y < h_next (eheap s1)" "i < length arr"
      "snd (snd y) = arr ! i" "eheap_table s1 ! i = Some (fst y)"
      by blast
    with af[of i] show "node_ok A {} b y"
      unfolding node_ok_def by (auto simp: fr intro!: exI[of _ i])
  qed
  with dn have "nodes_ok A {} b" by (simp add: nodes_ok_def list_all_iff fr)
  with sl show ?thesis by (simp add: b_def)
qed

subsection \<open>The call returns\<close>

lemma pop_min_nonempty:
  "\<not> BLI_heap_is_empty h \<Longrightarrow> \<exists>h' e. BLI_heap_pop_min h = Some (h', e)"
  by (cases "h_nodes h")
     (auto simp: BLI_heap_is_empty_def BLI_heap_pop_min_def split: option.splits)

lemma loop_state_sound:
  assumes qm: "queries_ignore_marks A" and ok: "candidates_ok A m arr"
    and rc: "run_conforms A m arr flag method oflag_edge oflag_face"
  shows "loop_state A m arr flag method oflag_edge oflag_face s \<Longrightarrow>
         slots_ok A s \<and> nodes_ok A {} s"
proof (induction rule: loop_state.induct)
  case loop_init
  show ?case by (rule build_heap_sound[OF qm ok])
next
  case (loop_pass s s')
  from pop_min_nonempty[OF loop_pass(2)] obtain h e where
    pop: "BLI_heap_pop_min (eheap s) = Some (h, e)" by blast
  from rc loop_pass(1) pop have conf: "rotation_conforms A (bm s) e (edge_array s)"
    unfolding run_conforms_def by blast
  from loop_pass(4) have sl: "slots_ok A s" and nd: "nodes_ok A {} s" by blast+
  from step_sound[OF qm sl nd pop conf, of flag "method" oflag_edge oflag_face] loop_pass(3)
  show ?case by auto
qed

lemma loop_state_step:
  assumes qm: "queries_ignore_marks A" and ok: "candidates_ok A m arr"
    and rc: "run_conforms A m arr flag method oflag_edge oflag_face"
    and ls: "loop_state A m arr flag method oflag_edge oflag_face s"
    and ne: "\<not> BLI_heap_is_empty (eheap s)"
  shows "\<exists>s'. beautify_step A flag method oflag_edge oflag_face s = Inr s' \<and>
              loop_state A m arr flag method oflag_edge oflag_face s'"
proof -
  from pop_min_nonempty[OF ne] obtain h e where
    pop: "BLI_heap_pop_min (eheap s) = Some (h, e)" by blast
  from rc ls pop have conf: "rotation_conforms A (bm s) e (edge_array s)"
    unfolding run_conforms_def by blast
  from loop_state_sound[OF qm ok rc ls] have sl: "slots_ok A s" and nd: "nodes_ok A {} s"
    by blast+
  from step_sound[OF qm sl nd pop conf, of flag "method" oflag_edge oflag_face]
  obtain s' where st: "beautify_step A flag method oflag_edge oflag_face s = Inr s'" by blast
  from loop_pass[OF ls ne st] st show ?thesis by blast
qed

lemma beautify_loop_completes:
  assumes "arrays_aligned s" and "P s"
    and pres: "\<And>t. P t \<Longrightarrow> arrays_aligned t \<Longrightarrow> \<not> BLI_heap_is_empty (eheap t) \<Longrightarrow>
                 \<exists>t'. beautify_step A flag method oflag_edge oflag_face t = Inr t' \<and> P t'"
  shows "\<exists>s'. beautify_loop A flag method oflag_edge oflag_face s = Some (Inr s') \<and>
              P s' \<and> BLI_heap_is_empty (eheap s')"
  using assms(1,2)
proof (induction s rule: wf_induct_rule[OF wf_inv_image[OF wf_lex_prod[OF wf_less_than wf_less_than]], of step_measure])
  case (1 s)
  show ?case
  proof (cases "BLI_heap_is_empty (eheap s)")
    case True
    with 1(3) show ?thesis by (subst beautify_loop.simps) simp
  next
    case False
    from pres[OF 1(3) 1(2) False] obtain t' where
      st: "beautify_step A flag method oflag_edge oflag_face s = Inr t'" and p: "P t'"
      by blast
    from step_decreases[OF st 1(2)]
    have "(t', s) \<in> inv_image (less_than <*lex*> less_than) step_measure"
      by (simp add: inv_image_def)
    from 1(1)[OF this step_aligned[OF st 1(2)] p]
    show ?thesis using False st by (subst beautify_loop.simps) simp
  qed
qed

text \<open>
  C1: the call of \<open>BM_mesh_beautify_fill\<close> returns, with a final state and not with a
  failed assertion, and the heap is empty then. The array has no edge twice and holds only
  manifold edges between two triangles, the queries of the library do not read the marks
  this file writes, and the rotations of the call behave as rotations. The loop makes
  finitely many passes: a pass that rotates puts into the set of a slot a state that the
  set did not hold, every other pass takes a node from the heap, and a slot can hold only
  finitely many states (four 32-bit indices). That the state is new is not taken from the
  assertion of line 357: the alternate state of a queued edge is not in the set of its
  slot (the test of lines 243--250), and the rotation makes it the current state.
\<close>

theorem beautify_fill_returns:
  assumes qm: "queries_ignore_marks A" and ok: "candidates_ok A m arr"
    and rc: "run_conforms A m arr flag method oflag_edge oflag_face"
  shows "\<exists>s. BM_mesh_beautify_fill A m arr flag method oflag_edge oflag_face = Some (Inr s) \<and>
             loop_state A m arr flag method oflag_edge oflag_face s \<and>
             BLI_heap_is_empty (eheap s)"
  unfolding BM_mesh_beautify_fill_def
proof (rule beautify_loop_completes[where P = "loop_state A m arr flag method oflag_edge oflag_face"])
  show "arrays_aligned (build_heap A flag method m arr)" by (rule build_heap_aligned)
  show "loop_state A m arr flag method oflag_edge oflag_face (build_heap A flag method m arr)"
    by (rule loop_init)
  show "\<And>t. loop_state A m arr flag method oflag_edge oflag_face t \<Longrightarrow> arrays_aligned t \<Longrightarrow>
          \<not> BLI_heap_is_empty (eheap t) \<Longrightarrow>
          \<exists>t'. beautify_step A flag method oflag_edge oflag_face t = Inr t' \<and>
               loop_state A m arr flag method oflag_edge oflag_face t'"
    by (rule loop_state_step[OF qm ok rc])
qed

lemma erot_state_current_explicit:
  assumes "erot_state_current A m e = Inr e_state"
  shows "e_state = \<lparr>v_pair = EDGE_ORD (v_index m (e_v1 m e), v_index m (e_v2 m e)),
                    f_pair = EDGE_ORD (v_index m (l_v m (l_prev m (e_l m e))),
                                       v_index m (l_v m (l_prev m (l_radial_next m (e_l m e)))))\<rparr>"
  using assms
  by (auto simp: erot_state_current_def erot_state_ex_def Let_def BM_elem_index_get_v_def
           split: if_splits sum.splits)

text \<open>
  C2: under the same conditions, when the edge popped at a loop state is rotated, the pass
  is completed, the state recorded in the slot of the popped edge is the current state of
  the new edge (the sorted indices of its two vertices, and the sorted indices of the two
  opposite vertices), this state was not in the set of the slot before, no other slot
  changes, and the log of the call, extended by this (slot, state), holds no entry twice.
\<close>

theorem rotation_records_new_state:
  assumes qm: "queries_ignore_marks A" and ok: "candidates_ok A m arr"
    and rc: "run_conforms A m arr flag method oflag_edge oflag_face"
    and ls: "loop_state A m arr flag method oflag_edge oflag_face s"
    and pop: "BLI_heap_pop_min (eheap s) = Some (h, e)"
    and rot: "BM_edge_rotate A (bm s) e = (m', Some e')"
    and i: "i = nat (sint (BM_elem_index_get_e (bm s) e))"
    and es: "e_state = \<lparr>v_pair = EDGE_ORD (v_index m' (e_v1 m' e'), v_index m' (e_v2 m' e')),
                        f_pair = EDGE_ORD (v_index m' (l_v m' (l_prev m' (e_l m' e'))),
                           v_index m' (l_v m' (l_prev m' (l_radial_next m' (e_l m' e')))))\<rparr>"
  shows "\<exists>s'. beautify_step A flag method oflag_edge oflag_face s = Inr s' \<and>
              i < length (edge_state_arr s) \<and>
              e_state \<notin> slot_set (edge_state_arr s ! i) \<and>
              edge_state_arr s' =
                (edge_state_arr s)[i := Some (insert e_state (slot_set (edge_state_arr s ! i)))] \<and>
              flips s' = flips s @ [(i, e_state)] \<and>
              distinct (flips s')"
proof -
  from pop have ne: "\<not> BLI_heap_is_empty (eheap s)"
    by (auto simp: BLI_heap_is_empty_def BLI_heap_pop_min_def)
  from loop_state_step[OF qm ok rc ls ne] obtain s' where
    st: "beautify_step A flag method oflag_edge oflag_face s = Inr s'" by blast
  from step_flipped[OF st pop rot] obtain x s3 where
    cur: "erot_state_current A m' e' = Inr x"
    and fresh: "x \<notin> slot_set (edge_state_arr s ! i)"
    and up: "bm_edge_update_beauty_cost A e' flag method
               (flip_state s h (BM_elem_index_get_e (bm s) e) m' e' x) = Inr s3"
    and s': "edge_state_arr s' = edge_state_arr s3" "flips s' = flips s3"
    unfolding i by blast
  from erot_state_current_explicit[OF cur] es have x: "x = e_state" by simp
  from st pop have rng: "0 \<le> sint (BM_elem_index_get_e (bm s) e)"
      "sint (BM_elem_index_get_e (bm s) e) < int (length (edge_array s))"
    by (auto elim!: step_popE)
  with loop_state_aligned[OF ls] have i_lt: "i < length (edge_state_arr s)"
    by (simp add: i arrays_aligned_def)
  from update_cost_frame[OF up] s'
  have arr: "edge_state_arr s' = (edge_state_arr s)
               [i := Some (insert x (slot_set (edge_state_arr s ! i)))]"
    and fl: "flips s' = flips s @ [(i, x)]"
    by (simp_all add: flip_state_def i)
  from step_flips_recorded[OF st loop_state_aligned[OF ls] loop_state_flips_recorded[OF ls]]
  have "distinct (flips s')"
    by (simp add: flips_recorded_def)
  with st fresh i_lt arr fl show ?thesis unfolding x by blast
qed

subsection \<open>The run on the strip\<close>

lemmas strip_defs = strip_s3_def strip_s2_def strip_s1_def strip_s0_def strip_arr_def strip_mesh_def

lemma tri_queries_ignore_marks: "queries_ignore_marks tri_api"
proof -
  have "\<And>m m' e v n. marks_variant m' m \<Longrightarrow>
        BM_edge_is_manifold tri_api m' e = BM_edge_is_manifold tri_api m e \<and>
        BM_vert_in_edge tri_api m' e v = BM_vert_in_edge tri_api m e v \<and>
        BM_edge_face_count_is_equal tri_api m' e n = BM_edge_face_count_is_equal tri_api m e n"
  proof -
    fix m m' e v n assume "marks_variant m' m"
    then obtain a b c d where
      "m' = m\<lparr>e_index := a, e_oflag := b, f_oflag := c, elem_index_dirty := d\<rparr>"
      by (rule marks_variantE)
    then show "BM_edge_is_manifold tri_api m' e = BM_edge_is_manifold tri_api m e \<and>
        BM_vert_in_edge tri_api m' e v = BM_vert_in_edge tri_api m e v \<and>
        BM_edge_face_count_is_equal tri_api m' e n = BM_edge_face_count_is_equal tri_api m e n"
      by (simp add: tri_api_def tri_edge_is_manifold_def tri_vert_in_edge_def
            tri_edge_face_count_is_equal_def)
  qed
  then show ?thesis unfolding queries_ignore_marks_def by blast
qed

lemmas contract_defs = rotation_conforms_def good_edge_def e_arr_def candidates_ok_def

lemma strip_candidates: "candidates_ok tri_api strip_mesh strip_arr"
  by (simp add: contract_defs strip_defs tri_defs)

lemma strip_pop0:
  "BLI_heap_pop_min (eheap strip_s0) = Some (\<lparr>h_nodes = [], h_next = 1\<rparr>, 0)"
  "rotation_conforms tri_api (bm strip_s0) 0 (edge_array strip_s0)"
  by (simp_all add: contract_defs strip_defs model_defs tri_defs Let_def)

lemma strip_pop1:
  "\<exists>h. BLI_heap_pop_min (eheap strip_s1) = Some (h, 1)"
  "rotation_conforms tri_api (bm strip_s1) 1 (edge_array strip_s1)"
  by (simp_all add: contract_defs strip_defs model_defs tri_defs Let_def)

lemma strip_pop2:
  "\<exists>h. BLI_heap_pop_min (eheap strip_s2) = Some (h, 7)"
  "rotation_conforms tri_api (bm strip_s2) 7 (edge_array strip_s2)"
  by (simp_all add: contract_defs strip_defs model_defs tri_defs Let_def)

lemma strip_pop3: "BLI_heap_is_empty (eheap strip_s3)"
  by (simp add: strip_defs model_defs tri_defs Let_def)

lemma strip_step0:
  "beautify_step tri_api 0 0 0 0 strip_s0 = Inr strip_s1"
  "slots_ok tri_api strip_s1 \<and> nodes_ok tri_api {} strip_s1"
proof -
  from build_heap_sound[OF tri_queries_ignore_marks strip_candidates, of 0 0]
  have sl: "slots_ok tri_api strip_s0" and nd: "nodes_ok tri_api {} strip_s0"
    by (simp_all add: strip_s0_def)
  from step_sound[OF tri_queries_ignore_marks sl nd strip_pop0, of 0 0 0 0]
  show "beautify_step tri_api 0 0 0 0 strip_s0 = Inr strip_s1"
    and "slots_ok tri_api strip_s1 \<and> nodes_ok tri_api {} strip_s1"
    by (auto simp: strip_s1_def)
qed

lemma strip_step1:
  "beautify_step tri_api 0 0 0 0 strip_s1 = Inr strip_s2"
  "slots_ok tri_api strip_s2 \<and> nodes_ok tri_api {} strip_s2"
proof -
  from strip_pop1(1) obtain h where pop: "BLI_heap_pop_min (eheap strip_s1) = Some (h, 1)"
    by blast
  from strip_step0(2) have sl: "slots_ok tri_api strip_s1" and nd: "nodes_ok tri_api {} strip_s1"
    by blast+
  from step_sound[OF tri_queries_ignore_marks sl nd pop strip_pop1(2), of 0 0 0 0]
  show "beautify_step tri_api 0 0 0 0 strip_s1 = Inr strip_s2"
    and "slots_ok tri_api strip_s2 \<and> nodes_ok tri_api {} strip_s2"
    by (auto simp: strip_s2_def)
qed

lemma strip_step2:
  "beautify_step tri_api 0 0 0 0 strip_s2 = Inr strip_s3"
proof -
  from strip_pop2(1) obtain h where pop: "BLI_heap_pop_min (eheap strip_s2) = Some (h, 7)"
    by blast
  from strip_step1(2) have sl: "slots_ok tri_api strip_s2" and nd: "nodes_ok tri_api {} strip_s2"
    by blast+
  from step_sound[OF tri_queries_ignore_marks sl nd pop strip_pop2(2), of 0 0 0 0]
  show ?thesis by (auto simp: strip_s3_def)
qed

lemma strip_loop_states:
  "loop_state tri_api strip_mesh strip_arr 0 0 0 0 s \<Longrightarrow>
   s = strip_s0 \<or> s = strip_s1 \<or> s = strip_s2 \<or> s = strip_s3"
proof (induction rule: loop_state.induct)
  case loop_init
  show ?case by (simp add: strip_s0_def)
next
  case (loop_pass s s')
  from loop_pass(4) loop_pass(2) loop_pass(3) show ?case
    using strip_step0(1) strip_step1(1) strip_step2 strip_pop3 by auto
qed

lemma strip_run_conforms: "run_conforms tri_api strip_mesh strip_arr 0 0 0 0"
  unfolding run_conforms_def
proof (intro allI impI)
  fix s h e
  assume ls: "loop_state tri_api strip_mesh strip_arr 0 0 0 0 s"
    and pop: "BLI_heap_pop_min (eheap s) = Some (h, e)"
  from pop have ne: "\<not> BLI_heap_is_empty (eheap s)"
    by (auto simp: BLI_heap_is_empty_def BLI_heap_pop_min_def)
  from strip_loop_states[OF ls] ne strip_pop3
  consider "s = strip_s0" | "s = strip_s1" | "s = strip_s2" by blast
  then show "rotation_conforms tri_api (bm s) e (edge_array s)"
  proof cases
    case 1
    with pop strip_pop0 show ?thesis by simp
  next
    case 2
    with pop strip_pop1 show ?thesis by auto
  next
    case 3
    with pop strip_pop2 show ?thesis by auto
  qed
qed

lemma strip_loop_s2: "loop_state tri_api strip_mesh strip_arr 0 0 0 0 strip_s2"
proof -
  have l0: "loop_state tri_api strip_mesh strip_arr 0 0 0 0 strip_s0"
    unfolding strip_s0_def by (rule loop_init)
  from strip_pop0(1) have n0: "\<not> BLI_heap_is_empty (eheap strip_s0)"
    by (auto simp: BLI_heap_is_empty_def BLI_heap_pop_min_def)
  from strip_pop1(1) have n1: "\<not> BLI_heap_is_empty (eheap strip_s1)"
    by (auto simp: BLI_heap_is_empty_def BLI_heap_pop_min_def)
  from loop_pass[OF loop_pass[OF l0 n0 strip_step0(1)] n1 strip_step1(1)]
  show ?thesis .
qed

lemma strip_s3_facts:
  "flips strip_s3 = [(0, \<lparr>v_pair = (0, 3), f_pair = (1, 2)\<rparr>),
                     (1, \<lparr>v_pair = (0, 4), f_pair = (2, 3)\<rparr>),
                     (0, \<lparr>v_pair = (1, 4), f_pair = (0, 3)\<rparr>)]"
  "edge_array strip_s3 = [9, 8]"
  by (simp_all add: strip_defs model_defs tri_defs Let_def)

theorem beautify_fill_returns_witness:
  "\<exists>s. BM_mesh_beautify_fill tri_api strip_mesh strip_arr 0 0 0 0 = Some (Inr s) \<and>
       BLI_heap_is_empty (eheap s) \<and>
       flips s = [(0, \<lparr>v_pair = (0, 3), f_pair = (1, 2)\<rparr>),
                  (1, \<lparr>v_pair = (0, 4), f_pair = (2, 3)\<rparr>),
                  (0, \<lparr>v_pair = (1, 4), f_pair = (0, 3)\<rparr>)] \<and>
       edge_array s = [9, 8]"
proof -
  from beautify_fill_returns[OF tri_queries_ignore_marks strip_candidates strip_run_conforms]
  obtain s where r: "BM_mesh_beautify_fill tri_api strip_mesh strip_arr 0 0 0 0 = Some (Inr s)"
    and ls: "loop_state tri_api strip_mesh strip_arr 0 0 0 0 s"
    and em: "BLI_heap_is_empty (eheap s)"
    by blast
  from strip_loop_states[OF ls] em strip_pop0(1) strip_pop1(1) strip_pop2(1)
  have "s = strip_s3"
    by (auto simp: BLI_heap_is_empty_def BLI_heap_pop_min_def)
  with r em strip_s3_facts show ?thesis by simp
qed

lemma strip_s2_facts:
  "snd (BM_edge_rotate tri_api (bm strip_s2) 7) = Some 9"
  "nat (sint (BM_elem_index_get_e (bm strip_s2) 7)) = 0"
  "edge_state_arr strip_s2 = [Some {\<lparr>v_pair = (0, 3), f_pair = (1, 2)\<rparr>},
                              Some {\<lparr>v_pair = (0, 4), f_pair = (2, 3)\<rparr>}]"
  "flips strip_s2 = [(0, \<lparr>v_pair = (0, 3), f_pair = (1, 2)\<rparr>),
                     (1, \<lparr>v_pair = (0, 4), f_pair = (2, 3)\<rparr>)]"
  by (simp_all add: strip_defs model_defs tri_defs Let_def)

lemma strip_s2_current:
  "erot_state_current tri_api (fst (BM_edge_rotate tri_api (bm strip_s2) 7)) 9 =
     Inr \<lparr>v_pair = (1, 4), f_pair = (0, 3)\<rparr>"
  by (simp add: strip_defs model_defs tri_defs Let_def)

theorem rotation_records_new_state_witness:
  "\<exists>s'. beautify_step tri_api 0 0 0 0 strip_s2 = Inr s' \<and>
      edge_state_arr strip_s2 ! 0 = Some {\<lparr>v_pair = (0, 3), f_pair = (1, 2)\<rparr>} \<and>
      edge_state_arr s' =
        [Some {\<lparr>v_pair = (1, 4), f_pair = (0, 3)\<rparr>, \<lparr>v_pair = (0, 3), f_pair = (1, 2)\<rparr>},
         Some {\<lparr>v_pair = (0, 4), f_pair = (2, 3)\<rparr>}] \<and>
      flips s' = [(0, \<lparr>v_pair = (0, 3), f_pair = (1, 2)\<rparr>),
                  (1, \<lparr>v_pair = (0, 4), f_pair = (2, 3)\<rparr>),
                  (0, \<lparr>v_pair = (1, 4), f_pair = (0, 3)\<rparr>)]"
proof -
  from strip_pop2(1) obtain h where pop: "BLI_heap_pop_min (eheap strip_s2) = Some (h, 7)"
    by blast
  have rot: "BM_edge_rotate tri_api (bm strip_s2) 7 =
               (fst (BM_edge_rotate tri_api (bm strip_s2) 7), Some 9)"
    by (simp add: strip_s2_facts(1)[symmetric])
  show ?thesis
    using rotation_records_new_state[OF tri_queries_ignore_marks strip_candidates
        strip_run_conforms strip_loop_s2 pop rot strip_s2_facts(2)[symmetric]
        erot_state_current_explicit[OF strip_s2_current]]
    by (auto simp: strip_s2_facts(3,4))
qed

end
